theory Spec2Isabelle
  imports Complex_Main "HOL-Library.Sublist" "HOL-Library.Multiset"
begin

section \<open>The data model of bp3d.go\<close>

text \<open>
  The Go package keeps bins and items behind pointers (\<^verbatim>\<open>*Bin\<close>, \<^verbatim>\<open>*Item\<close>): one item
  may be reachable from the packer's pending list and from the occupant lists of several
  bins at once, and \<^verbatim>\<open>PutItem\<close> writes to the item it is given. The embedding therefore
  has an explicit store: an address is a natural number, \<open>imem\<close> maps item addresses to
  items and \<open>bmem\<close> maps bin addresses to bins; every slice of pointers is a list of
  addresses.

  \<^verbatim>\<open>float64\<close> is idealised as \<open>real\<close>: rounding, infinities and NaN are outside the
  model, except in \<open>GetVolumeUtilization\<close>, whose division is written out with the IEEE
  results of a zero divisor. A Go slice is modelled by the list of its elements: where
  \<^verbatim>\<open>packToBin\<close> builds \<^verbatim>\<open>append(b2.Items, i)\<close>, the result is a list of its own, also
  when Go would find spare capacity in the backing array of \<^verbatim>\<open>b2.Items\<close> and share it.
\<close>

type_synonym float64 = real

type_synonym RotationType = int

definition RotationType_WHD :: RotationType where "RotationType_WHD = 0"
definition RotationType_HWD :: RotationType where "RotationType_HWD = 1"
definition RotationType_HDW :: RotationType where "RotationType_HDW = 2"
definition RotationType_DHW :: RotationType where "RotationType_DHW = 3"
definition RotationType_DWH :: RotationType where "RotationType_DWH = 4"
definition RotationType_WDH :: RotationType where "RotationType_WDH = 5"

datatype Axis = WidthAxis | HeightAxis | DepthAxis

text \<open>\<^verbatim>\<open>type Pivot [3]float64\<close> and \<^verbatim>\<open>type Dimension [3]float64\<close>, indexed by an axis.\<close>

type_synonym Pivot = "float64 \<times> float64 \<times> float64"
type_synonym Dimension = "float64 \<times> float64 \<times> float64"

fun coord :: "float64 \<times> float64 \<times> float64 \<Rightarrow> Axis \<Rightarrow> float64" where
  "coord (x, y, z) WidthAxis = x"
| "coord (x, y, z) HeightAxis = y"
| "coord (x, y, z) DepthAxis = z"

definition startPosition :: Pivot where
  "startPosition = (0, 0, 0)"

record Item =
  iName :: string
  iWidth :: float64
  iHeight :: float64
  iDepth :: float64
  iWeight :: float64
  iRotationType :: RotationType
  iPosition :: Pivot

record Bin =
  bName :: string
  bWidth :: float64
  bHeight :: float64
  bDepth :: float64
  bMaxWeight :: float64
  bItems :: "nat list"

text \<open>
  The store together with the fields of the one \<^verbatim>\<open>Packer\<close>: \<open>Bins\<close>, \<open>Items\<close> and
  \<open>UnfitItems\<close> are lists of addresses.
\<close>

record Packer =
  imem :: "nat \<Rightarrow> Item"
  bmem :: "nat \<Rightarrow> Bin"
  FewestBoxes :: bool
  Bins :: "nat list"
  Items :: "nat list"
  UnfitItems :: "nat list"

datatype error = ErrInvalidBinsVolume | ErrUnfitItemsExist | ErrNoBins | ErrNoItems

text \<open>
  The outcome of a function whose recursion is bounded by fuel: \<open>OutOfFuel\<close> when the
  fuel did not suffice, \<open>Panic\<close> for Go's run-time panic (\<^verbatim>\<open>items[0]\<close> on an empty
  slice), \<open>Return\<close> for a normal return.
\<close>

datatype 'a outcome = OutOfFuel | Panic | Return 'a

section \<open>Constructors and accessors\<close>

definition NewBin :: "string \<Rightarrow> float64 \<Rightarrow> float64 \<Rightarrow> float64 \<Rightarrow> float64 \<Rightarrow> Bin" where
  "NewBin name w h d mw =
     \<lparr>bName = name, bWidth = w, bHeight = h, bDepth = d, bMaxWeight = mw, bItems = []\<rparr>"

definition NewItem :: "string \<Rightarrow> float64 \<Rightarrow> float64 \<Rightarrow> float64 \<Rightarrow> float64 \<Rightarrow> Item" where
  "NewItem name w h d wg =
     \<lparr>iName = name, iWidth = w, iHeight = h, iDepth = d, iWeight = wg,
      iRotationType = 0, iPosition = (0, 0, 0)\<rparr>"

definition Item_GetVolume :: "Item \<Rightarrow> float64" where
  "Item_GetVolume i = iWidth i * iHeight i * iDepth i"

definition Bin_GetVolume :: "Bin \<Rightarrow> float64" where
  "Bin_GetVolume b = bWidth b * bHeight b * bDepth b"

text \<open>\<^verbatim>\<open>GetUsedVolume\<close>: the loop adds the occupants' volumes to 0, left to right.\<close>

definition GetUsedVolume :: "Packer \<Rightarrow> nat \<Rightarrow> float64" where
  "GetUsedVolume s b =
     foldl (\<lambda>result item. result + Item_GetVolume (imem s item)) 0 (bItems (bmem s b))"

definition GetAvailableVolume :: "Packer \<Rightarrow> nat \<Rightarrow> float64" where
  "GetAvailableVolume s b = Bin_GetVolume (bmem s b) - GetUsedVolume s b"

text \<open>
  \<^verbatim>\<open>GetVolumeUtilization\<close> divides two \<^verbatim>\<open>float64\<close>s with no guard. Go does not panic
  on a zero divisor: the quotient is an infinity or NaN, which is no real number.
\<close>

datatype quotient = Finite real | PosInf | NegInf | NaN

definition float_div :: "float64 \<Rightarrow> float64 \<Rightarrow> quotient" where
  "float_div x y =
     (if y \<noteq> 0 then Finite (x / y)
      else if 0 < x then PosInf else if x < 0 then NegInf else NaN)"

definition GetVolumeUtilization :: "Packer \<Rightarrow> nat \<Rightarrow> quotient" where
  "GetVolumeUtilization s b = float_div (GetUsedVolume s b * 100) (Bin_GetVolume (bmem s b))"

section \<open>Rotation and intersection\<close>

text \<open>\<^verbatim>\<open>GetDimension\<close>: the switch has no default, so any other rotation value leaves the
  zero \<^verbatim>\<open>Dimension\<close>.\<close>

definition GetDimension :: "Item \<Rightarrow> Dimension" where
  "GetDimension i =
     (if iRotationType i = RotationType_WHD then (iWidth i, iHeight i, iDepth i)
      else if iRotationType i = RotationType_HWD then (iHeight i, iWidth i, iDepth i)
      else if iRotationType i = RotationType_HDW then (iHeight i, iDepth i, iWidth i)
      else if iRotationType i = RotationType_DHW then (iDepth i, iHeight i, iWidth i)
      else if iRotationType i = RotationType_DWH then (iDepth i, iWidth i, iHeight i)
      else if iRotationType i = RotationType_WDH then (iWidth i, iDepth i, iHeight i)
      else (0, 0, 0))"

definition rectIntersect :: "Item \<Rightarrow> Item \<Rightarrow> Axis \<Rightarrow> Axis \<Rightarrow> bool" where
  "rectIntersect i1 i2 x y =
     (let d1 = GetDimension i1;
          d2 = GetDimension i2;
          cx1 = coord (iPosition i1) x + coord d1 x / 2;
          cy1 = coord (iPosition i1) y + coord d1 y / 2;
          cx2 = coord (iPosition i2) x + coord d2 x / 2;
          cy2 = coord (iPosition i2) y + coord d2 y / 2;
          ix = max cx1 cx2 - min cx1 cx2;
          iy = max cy1 cy2 - min cy1 cy2
      in 1 / 100 < (coord d1 x + coord d2 x) / 2 - ix \<and> 1 / 100 < (coord d1 y + coord d2 y) / 2 - iy)"

definition Intersect :: "Item \<Rightarrow> Item \<Rightarrow> bool" where
  "Intersect i i2 =
     (rectIntersect i i2 WidthAxis HeightAxis \<and>
      rectIntersect i i2 HeightAxis DepthAxis \<and>
      rectIntersect i i2 WidthAxis DepthAxis)"

section \<open>Bin.PutItem\<close>

text \<open>The inner loop of \<^verbatim>\<open>PutItem\<close>: does any occupant intersect the item? It stops at
  the first that does.\<close>

fun intersects_any :: "Packer \<Rightarrow> nat list \<Rightarrow> nat \<Rightarrow> bool" where
  "intersects_any s [] item = False"
| "intersects_any s (ib # ibs) item =
     (if Intersect (imem s ib) (imem s item) then True else intersects_any s ibs item)"

definition set_rotation :: "Packer \<Rightarrow> nat \<Rightarrow> RotationType \<Rightarrow> Packer" where
  "set_rotation s item r = s\<lparr>imem := (imem s)(item := (imem s item)\<lparr>iRotationType := r\<rparr>)\<rparr>"

definition set_position :: "Packer \<Rightarrow> nat \<Rightarrow> Pivot \<Rightarrow> Packer" where
  "set_position s item p = s\<lparr>imem := (imem s)(item := (imem s item)\<lparr>iPosition := p\<rparr>)\<rparr>"

definition append_item :: "Packer \<Rightarrow> nat \<Rightarrow> nat \<Rightarrow> Packer" where
  "append_item s b item =
     s\<lparr>bmem := (bmem s)(b := (bmem s b)\<lparr>bItems := bItems (bmem s b) @ [item]\<rparr>)\<rparr>"

text \<open>The test that makes the rotation loop \<^verbatim>\<open>continue\<close>.\<close>

definition sticks_out :: "Bin \<Rightarrow> Pivot \<Rightarrow> Dimension \<Rightarrow> bool" where
  "sticks_out b p d =
     (bWidth b < coord p WidthAxis + coord d WidthAxis \<or>
      bHeight b < coord p HeightAxis + coord d HeightAxis \<or>
      bDepth b < coord p DepthAxis + coord d DepthAxis)"

text \<open>
  The loop \<^verbatim>\<open>for i := 0; i < 6; i++\<close> over the rotations still to be tried. The first
  rotation that does not stick out decides the call: the function returns from inside
  the loop whether or not the item fits.
\<close>

fun PutItem_rotations :: "RotationType list \<Rightarrow> Packer \<Rightarrow> nat \<Rightarrow> nat \<Rightarrow> Pivot \<Rightarrow> bool \<times> Packer" where
  "PutItem_rotations [] s b item p = (False, s)"
| "PutItem_rotations (i # rest) s b item p =
     (let s1 = set_rotation s item i;
          d = GetDimension (imem s1 item)
      in if sticks_out (bmem s1 b) p d then PutItem_rotations rest s1 b item p
         else if intersects_any s1 (bItems (bmem s1 b)) item then (False, s1)
         else (True, append_item s1 b item))"

definition PutItem :: "Packer \<Rightarrow> nat \<Rightarrow> nat \<Rightarrow> Pivot \<Rightarrow> bool \<times> Packer" where
  "PutItem s b item p = PutItem_rotations [0, 1, 2, 3, 4, 5] (set_position s item p) b item p"

section \<open>The packer\<close>

text \<open>\<^verbatim>\<open>getBiggerBinThan\<close>: the first registered bin with strictly more available volume.\<close>

definition getBiggerBinThan :: "Packer \<Rightarrow> nat \<Rightarrow> nat option" where
  "getBiggerBinThan s b =
     (let v = GetAvailableVolume s b
      in find (\<lambda>b2. GetAvailableVolume s b2 > v) (Bins s))"

text \<open>
  \<^verbatim>\<open>FindFittedBin\<close>: the scan over \<^verbatim>\<open>p.Bins\<close>. A successful trial placement is undone
  only when the item is then the bin's single occupant.
\<close>

fun FindFittedBin_scan :: "nat list \<Rightarrow> Packer \<Rightarrow> nat \<Rightarrow> nat option \<times> Packer" where
  "FindFittedBin_scan [] s i = (None, s)"
| "FindFittedBin_scan (b # bs) s i =
     (case PutItem s b i startPosition of
        (False, s1) \<Rightarrow> FindFittedBin_scan bs s1 i
      | (True, s1) \<Rightarrow>
          (if length (bItems (bmem s1 b)) = 1 \<and> bItems (bmem s1 b) ! 0 = i
           then (Some b, s1\<lparr>bmem := (bmem s1)(b := (bmem s1 b)\<lparr>bItems := []\<rparr>)\<rparr>)
           else (Some b, s1)))"

definition FindFittedBin :: "Packer \<Rightarrow> nat \<Rightarrow> nat option \<times> Packer" where
  "FindFittedBin s i = FindFittedBin_scan (Bins s) s i"

text \<open>\<^verbatim>\<open>unfitItem\<close> moves \<^verbatim>\<open>p.Items[0]\<close> to \<^verbatim>\<open>p.UnfitItems\<close>.\<close>

definition unfitItem :: "Packer \<Rightarrow> Packer" where
  "unfitItem s =
     (case Items s of
        [] \<Rightarrow> s
      | i # rest \<Rightarrow> s\<lparr>Items := rest, UnfitItems := UnfitItems s @ [i]\<rparr>)"

subsection \<open>The pivot search of packToBin\<close>

text \<open>The pivot that the \<^verbatim>\<open>switch Axis(pt)\<close> builds from the occupant \<open>ib\<close>.\<close>

fun pivot_beside :: "Axis \<Rightarrow> Item \<Rightarrow> Pivot" where
  "pivot_beside WidthAxis ib =
     (coord (iPosition ib) WidthAxis + iWidth ib,
      coord (iPosition ib) HeightAxis, coord (iPosition ib) DepthAxis)"
| "pivot_beside HeightAxis ib =
     (coord (iPosition ib) WidthAxis,
      coord (iPosition ib) HeightAxis + iHeight ib, coord (iPosition ib) DepthAxis)"
| "pivot_beside DepthAxis ib =
     (coord (iPosition ib) WidthAxis,
      coord (iPosition ib) HeightAxis, coord (iPosition ib) DepthAxis + iDepth ib)"

text \<open>
  The nested \<^verbatim>\<open>for\<close> statements labelled \<^verbatim>\<open>lookup\<close>: the outer one runs over the
  three axes, the inner one over the occupants of the bin; \<^verbatim>\<open>break lookup\<close> leaves both
  at the first success. Each occupant is read from the store when its turn comes.
\<close>

fun lookup_occupants :: "Axis \<Rightarrow> nat list \<Rightarrow> Packer \<Rightarrow> nat \<Rightarrow> nat \<Rightarrow> bool \<times> Packer" where
  "lookup_occupants pt [] s b i = (False, s)"
| "lookup_occupants pt (ib # ibs) s b i =
     (let pv = pivot_beside pt (imem s ib)
      in case PutItem s b i pv of
           (True, s1) \<Rightarrow> (True, s1)
         | (False, s1) \<Rightarrow> lookup_occupants pt ibs s1 b i)"

fun lookup_axes :: "Axis list \<Rightarrow> Packer \<Rightarrow> nat \<Rightarrow> nat \<Rightarrow> bool \<times> Packer" where
  "lookup_axes [] s b i = (False, s)"
| "lookup_axes (pt # pts) s b i =
     (case lookup_occupants pt (bItems (bmem s b)) s b i of
        (True, s1) \<Rightarrow> (True, s1)
      | (False, s1) \<Rightarrow> lookup_axes pts s1 b i)"

definition lookup :: "Packer \<Rightarrow> nat \<Rightarrow> nat \<Rightarrow> bool \<times> Packer" where
  "lookup s b i = lookup_axes [WidthAxis, HeightAxis, DepthAxis] s b i"

subsection \<open>packToBin\<close>

text \<open>
  \<^verbatim>\<open>packToBin\<close> calls itself for a bigger bin when the first item does not go in, and
  from the escalation loop of every later item that found no pivot. The recursion is
  bounded by fuel: every call of \<open>packToBin\<close> and every turn of the escalation loop
  takes one unit.
  \<^item> \<open>packToBin n s b items\<close> is the function itself;
  \<^item> \<open>pack_rest n s b rest unpacked\<close> is the loop over \<^verbatim>\<open>items[1:]\<close>, with the current
    bin \<open>b\<close> (the escalation loop reassigns it) and the result so far;
  \<^item> \<open>escalate n s b i\<close> is the loop
    \<^verbatim>\<open>for b2 := p.getBiggerBinThan(b); b2 != nil; b2 = p.getBiggerBinThan(b)\<close>,
    returning \<^verbatim>\<open>fitted\<close>, the current bin and the state.
\<close>

fun packToBin :: "nat \<Rightarrow> Packer \<Rightarrow> nat \<Rightarrow> nat list \<Rightarrow> (nat list \<times> Packer) outcome"
  and pack_rest :: "nat \<Rightarrow> Packer \<Rightarrow> nat \<Rightarrow> nat list \<Rightarrow> nat list \<Rightarrow> (nat list \<times> Packer) outcome"
  and escalate :: "nat \<Rightarrow> Packer \<Rightarrow> nat \<Rightarrow> nat \<Rightarrow> (bool \<times> nat \<times> Packer) outcome"
where
  "packToBin 0 s b items = OutOfFuel"
| "packToBin (Suc n) s b [] = Panic"
| "packToBin (Suc n) s b (i0 # rest) =
     (case PutItem s b i0 startPosition of
        (False, s1) \<Rightarrow>
          (case getBiggerBinThan s1 b of
             Some b2 \<Rightarrow> packToBin n s1 b2 (i0 # rest)
           | None \<Rightarrow> Return (Items s1, s1))
      | (True, s1) \<Rightarrow> pack_rest n s1 b rest [])"
| "pack_rest n s b [] unpacked = Return (unpacked, s)"
| "pack_rest n s b (i # rest) unpacked =
     (case lookup s b i of
        (True, s1) \<Rightarrow> pack_rest n s1 b rest unpacked
      | (False, s1) \<Rightarrow>
          (case escalate n s1 b i of
             OutOfFuel \<Rightarrow> OutOfFuel
           | Panic \<Rightarrow> Panic
           | Return (fitted, b', s2) \<Rightarrow>
               pack_rest n s2 b' rest (if fitted then unpacked else unpacked @ [i])))"
| "escalate n s b i =
     (case getBiggerBinThan s b of
        None \<Rightarrow> Return (False, b, s)
      | Some b2 \<Rightarrow>
          (case n of
             0 \<Rightarrow> OutOfFuel
           | Suc m \<Rightarrow>
               (case packToBin m s b2 (bItems (bmem s b2) @ [i]) of
                  OutOfFuel \<Rightarrow> OutOfFuel
                | Panic \<Rightarrow> Panic
                | Return (left, s1) \<Rightarrow>
                    (if left = [] then Return (True, b2, s1) else escalate m s1 b2 i))))"

subsection \<open>Pack\<close>

text \<open>
  \<^verbatim>\<open>sort.Sort\<close> belongs to Go's library. On a slice of at most 12 elements it is
  insertion sort: each element in turn is swapped to the left while \<^verbatim>\<open>Less\<close> holds
  between it and its left neighbour. (On longer slices the library does not promise an
  order among elements that compare equal; the model is insertion sort throughout.)
\<close>

definition swap_left :: "('a \<Rightarrow> 'a \<Rightarrow> bool) \<Rightarrow> 'a list \<Rightarrow> 'a \<Rightarrow> 'a list" where
  "swap_left lt xs x =
     rev (dropWhile (lt x) (rev xs)) @ x # rev (takeWhile (lt x) (rev xs))"

definition sort_Sort :: "('a \<Rightarrow> 'a \<Rightarrow> bool) \<Rightarrow> 'a list \<Rightarrow> 'a list" where
  "sort_Sort lt xs = foldl (swap_left lt) [] xs"

definition BinSlice_Less :: "Packer \<Rightarrow> nat \<Rightarrow> nat \<Rightarrow> bool" where
  "BinSlice_Less s i j = (Bin_GetVolume (bmem s i) < Bin_GetVolume (bmem s j))"

definition ItemSlice_Less :: "Packer \<Rightarrow> nat \<Rightarrow> nat \<Rightarrow> bool" where
  "ItemSlice_Less s i j = (Item_GetVolume (imem s i) > Item_GetVolume (imem s j))"

definition items_volume :: "Packer \<Rightarrow> nat list \<Rightarrow> float64" where
  "items_volume s is = foldl (\<lambda>sum item. sum + Item_GetVolume (imem s item)) 0 is"

definition bins_volume :: "Packer \<Rightarrow> nat list \<Rightarrow> float64" where
  "bins_volume s bs = foldl (\<lambda>sum bin. sum + Bin_GetVolume (bmem s bin)) 0 bs"

text \<open>
  The first loop under \<^verbatim>\<open>if p.FewestBoxes\<close>: one pass over \<^verbatim>\<open>p.Bins\<close>, comparing each
  bin's volume with \<^verbatim>\<open>itemVolumeSum\<close>, the sum computed before the pass.
\<close>

fun fewest_pass :: "nat \<Rightarrow> float64 \<Rightarrow> nat list \<Rightarrow> Packer \<Rightarrow> Packer outcome" where
  "fewest_pass n itemVolumeSum [] s = Return s"
| "fewest_pass n itemVolumeSum (bin # bins) s =
     (if Bin_GetVolume (bmem s bin) \<ge> itemVolumeSum \<and> length (Items s) > 0
      then (case packToBin n s bin (Items s) of
              OutOfFuel \<Rightarrow> OutOfFuel
            | Panic \<Rightarrow> Panic
            | Return (unpacked, s1) \<Rightarrow> fewest_pass n itemVolumeSum bins (s1\<lparr>Items := unpacked\<rparr>))
      else fewest_pass n itemVolumeSum bins s)"

text \<open>The search for \<^verbatim>\<open>foundBin\<close>: the last bin whose available volume is at least
  \<^verbatim>\<open>found\<close> and below \<^verbatim>\<open>need\<close>.\<close>

definition find_closest :: "Packer \<Rightarrow> float64 \<Rightarrow> nat option" where
  "find_closest s need =
     snd (foldl (\<lambda>(found, foundBin) bin.
                   if GetAvailableVolume s bin \<ge> found \<and> GetAvailableVolume s bin < need
                   then (GetAvailableVolume s bin, Some bin) else (found, foundBin))
                (0, None) (Bins s))"

text \<open>The second loop under \<^verbatim>\<open>if p.FewestBoxes\<close>; every turn takes one unit of fuel.\<close>

fun fewest_loop :: "nat \<Rightarrow> Packer \<Rightarrow> Packer outcome" where
  "fewest_loop n s =
     (if length (Items s) > 0
      then (case find_closest s (items_volume s (Items s)) of
              None \<Rightarrow> Return s
            | Some foundBin \<Rightarrow>
                (case n of
                   0 \<Rightarrow> OutOfFuel
                 | Suc m \<Rightarrow>
                     (case packToBin m s foundBin (Items s) of
                        OutOfFuel \<Rightarrow> OutOfFuel
                      | Panic \<Rightarrow> Panic
                      | Return (unpacked, s1) \<Rightarrow> fewest_loop m (s1\<lparr>Items := unpacked\<rparr>))))
      else Return s)"

text \<open>The loop \<^verbatim>\<open>for len(p.Items) > 0\<close> that ends \<^verbatim>\<open>Pack\<close>; every turn takes one unit
  of fuel.\<close>

fun greedy_loop :: "nat \<Rightarrow> Packer \<Rightarrow> Packer outcome" where
  "greedy_loop n s =
     (case Items s of
        [] \<Rightarrow> Return s
      | i0 # _ \<Rightarrow>
          (case n of
             0 \<Rightarrow> OutOfFuel
           | Suc m \<Rightarrow>
               (case FindFittedBin s i0 of
                  (None, s1) \<Rightarrow> greedy_loop m (unfitItem s1)
                | (Some bin, s1) \<Rightarrow>
                    (case packToBin m s1 bin (Items s1) of
                       OutOfFuel \<Rightarrow> OutOfFuel
                     | Panic \<Rightarrow> Panic
                     | Return (unpacked, s2) \<Rightarrow> greedy_loop m (s2\<lparr>Items := unpacked\<rparr>)))))"

definition fewest_boxes :: "nat \<Rightarrow> float64 \<Rightarrow> Packer \<Rightarrow> Packer outcome" where
  "fewest_boxes n itemVolumeSum s =
     (if FewestBoxes s
      then (case fewest_pass n itemVolumeSum (Bins s) s of
              OutOfFuel \<Rightarrow> OutOfFuel
            | Panic \<Rightarrow> Panic
            | Return s1 \<Rightarrow> fewest_loop n s1)
      else Return s)"

definition Pack :: "nat \<Rightarrow> Packer \<Rightarrow> (error option \<times> Packer) outcome" where
  "Pack n s0 =
     (let s1 = s0\<lparr>Bins := sort_Sort (BinSlice_Less s0) (Bins s0)\<rparr>;
          s = s1\<lparr>Items := sort_Sort (ItemSlice_Less s1) (Items s1)\<rparr>
      in if length (Bins s) = 0 then Return (Some ErrNoBins, s)
         else if length (Items s) = 0 then Return (Some ErrNoItems, s)
         else
           let maxVolumeItem = imem s (hd (Items s));
               maxVolumeBin = bmem s (last (Bins s))
           in if Bin_GetVolume maxVolumeBin < Item_GetVolume maxVolumeItem
              then Return (Some ErrInvalidBinsVolume, s)
              else
                let itemVolumeSum = items_volume s (Items s);
                    binVolumeSum = bins_volume s (Bins s)
                in if binVolumeSum < itemVolumeSum then Return (Some ErrInvalidBinsVolume, s)
                   else (case fewest_boxes n itemVolumeSum s of
                           OutOfFuel \<Rightarrow> OutOfFuel
                         | Panic \<Rightarrow> Panic
                         | Return s2 \<Rightarrow>
                             (case greedy_loop n s2 of
                                OutOfFuel \<Rightarrow> OutOfFuel
                              | Panic \<Rightarrow> Panic
                              | Return s3 \<Rightarrow>
                                  Return (if length (UnfitItems s3) > 0
                                          then Some ErrUnfitItemsExist else None, s3))))"

text \<open>
  \<^verbatim>\<open>NewPacker\<close>, \<^verbatim>\<open>AddBin\<close> and \<^verbatim>\<open>AddItem\<close>: a packer built from freshly constructed bins
  and items. The k-th bin lives at bin address k, the k-th item at item address k; the
  rest of the store holds Go's zero values.
\<close>

definition NewPacker :: Packer where
  "NewPacker =
     \<lparr>imem = (\<lambda>_. NewItem [] 0 0 0 0), bmem = (\<lambda>_. NewBin [] 0 0 0 0),
      FewestBoxes = False, Bins = [], Items = [], UnfitItems = []\<rparr>"

definition AddBin :: "Packer \<Rightarrow> Bin \<Rightarrow> Packer" where
  "AddBin s b = s\<lparr>bmem := (bmem s)(length (Bins s) := b), Bins := Bins s @ [length (Bins s)]\<rparr>"

definition AddItem :: "Packer \<Rightarrow> Item \<Rightarrow> Packer" where
  "AddItem s i = s\<lparr>imem := (imem s)(length (Items s) := i), Items := Items s @ [length (Items s)]\<rparr>"

section \<open>Definitions in the words of the specification\<close>

text \<open>
  The definitions of this section are not translated from the code: they say what the
  specification describes, for comparison with the functions above.
\<close>

subsection \<open>PutItem: the first rotation that keeps the item inside the bin\<close>

definition rotation_order :: "RotationType list" where
  "rotation_order =
     [RotationType_WHD, RotationType_HWD, RotationType_HDW,
      RotationType_DHW, RotationType_DWH, RotationType_WDH]"

text \<open>The store after pivot \<open>p\<close> and rotation \<open>r\<close> have been recorded on the item.\<close>

definition placed :: "Packer \<Rightarrow> nat \<Rightarrow> RotationType \<Rightarrow> Pivot \<Rightarrow> Packer" where
  "placed s item r p =
     s\<lparr>imem := (imem s)(item := (imem s item)\<lparr>iPosition := p, iRotationType := r\<rparr>)\<rparr>"

definition contained :: "Bin \<Rightarrow> Pivot \<Rightarrow> Dimension \<Rightarrow> bool" where
  "contained b p d =
     (bWidth b \<ge> coord p WidthAxis + coord d WidthAxis \<and>
      bHeight b \<ge> coord p HeightAxis + coord d HeightAxis \<and>
      bDepth b \<ge> coord p DepthAxis + coord d DepthAxis)"

definition first_contained :: "Packer \<Rightarrow> nat \<Rightarrow> nat \<Rightarrow> Pivot \<Rightarrow> RotationType option" where
  "first_contained s b item p =
     find (\<lambda>r. contained (bmem s b) p (GetDimension (imem (placed s item r p) item)))
       rotation_order"

subsection \<open>Intersect: overlap of the projections\<close>

definition center :: "Item \<Rightarrow> Axis \<Rightarrow> float64" where
  "center i a = coord (iPosition i) a + coord (GetDimension i) a / 2"

definition axis_overlap :: "Item \<Rightarrow> Item \<Rightarrow> Axis \<Rightarrow> bool" where
  "axis_overlap i1 i2 a =
     ((coord (GetDimension i1) a + coord (GetDimension i2) a) / 2 - \<bar>center i1 a - center i2 a\<bar>
        > 1 / 100)"

definition projection_overlap :: "Item \<Rightarrow> Item \<Rightarrow> Axis \<Rightarrow> Axis \<Rightarrow> bool" where
  "projection_overlap i1 i2 x y = (axis_overlap i1 i2 x \<and> axis_overlap i1 i2 y)"

subsection \<open>packToBin: the pivot candidates\<close>

text \<open>The pivot at the far edge of an occupant along one axis, under its placed extent.\<close>

definition far_edge :: "Axis \<Rightarrow> Item \<Rightarrow> Pivot" where
  "far_edge pt ib =
     (case pt of
        WidthAxis \<Rightarrow>
          (coord (iPosition ib) WidthAxis + coord (GetDimension ib) WidthAxis,
           coord (iPosition ib) HeightAxis, coord (iPosition ib) DepthAxis)
      | HeightAxis \<Rightarrow>
          (coord (iPosition ib) WidthAxis,
           coord (iPosition ib) HeightAxis + coord (GetDimension ib) HeightAxis,
           coord (iPosition ib) DepthAxis)
      | DepthAxis \<Rightarrow>
          (coord (iPosition ib) WidthAxis, coord (iPosition ib) HeightAxis,
           coord (iPosition ib) DepthAxis + coord (GetDimension ib) DepthAxis))"

text \<open>
  The search as the specification words it: occupant by occupant, and for each occupant
  the three axes, with the pivot at the far edge of the placed extent.
\<close>

fun spec_lookup_axes :: "Axis list \<Rightarrow> nat \<Rightarrow> Packer \<Rightarrow> nat \<Rightarrow> nat \<Rightarrow> bool \<times> Packer" where
  "spec_lookup_axes [] ib s b i = (False, s)"
| "spec_lookup_axes (pt # pts) ib s b i =
     (case PutItem s b i (far_edge pt (imem s ib)) of
        (True, s1) \<Rightarrow> (True, s1)
      | (False, s1) \<Rightarrow> spec_lookup_axes pts ib s1 b i)"

fun spec_lookup_occupants :: "nat list \<Rightarrow> Packer \<Rightarrow> nat \<Rightarrow> nat \<Rightarrow> bool \<times> Packer" where
  "spec_lookup_occupants [] s b i = (False, s)"
| "spec_lookup_occupants (ib # ibs) s b i =
     (case spec_lookup_axes [WidthAxis, HeightAxis, DepthAxis] ib s b i of
        (True, s1) \<Rightarrow> (True, s1)
      | (False, s1) \<Rightarrow> spec_lookup_occupants ibs s1 b i)"

definition spec_lookup :: "Packer \<Rightarrow> nat \<Rightarrow> nat \<Rightarrow> bool \<times> Packer" where
  "spec_lookup s b i = spec_lookup_occupants (bItems (bmem s b)) s b i"

text \<open>
  A list of candidates, each an axis and an occupant, tried in the order of the list up
  to the first success of \<open>PutItem\<close>. The pivot is the one \<open>packToBin\<close> computes.
\<close>

fun try_candidates :: "(Axis \<times> nat) list \<Rightarrow> Packer \<Rightarrow> nat \<Rightarrow> nat \<Rightarrow> bool \<times> Packer" where
  "try_candidates [] s b i = (False, s)"
| "try_candidates ((pt, ib) # cs) s b i =
     (case PutItem s b i (pivot_beside pt (imem s ib)) of
        (True, s1) \<Rightarrow> (True, s1)
      | (False, s1) \<Rightarrow> try_candidates cs s1 b i)"

subsection \<open>Pack: the first FewestBoxes pass\<close>

text \<open>
  \<open>packToBin\<close> with the remaining items on each bin of a list in turn, for as long as
  items remain.
\<close>

fun attempt_each :: "nat \<Rightarrow> nat list \<Rightarrow> Packer \<Rightarrow> Packer outcome" where
  "attempt_each n [] s = Return s"
| "attempt_each n (bin # bins) s =
     (if Items s = [] then attempt_each n bins s
      else (case packToBin n s bin (Items s) of
              OutOfFuel \<Rightarrow> OutOfFuel
            | Panic \<Rightarrow> Panic
            | Return (unpacked, s1) \<Rightarrow> attempt_each n bins (s1\<lparr>Items := unpacked\<rparr>)))"

text \<open>
  The pass with the test the specification words: each bin's volume against the total
  volume of the items that remain when the bin is reached.
\<close>

fun pass_on_current_volume :: "nat \<Rightarrow> nat list \<Rightarrow> Packer \<Rightarrow> Packer outcome" where
  "pass_on_current_volume n [] s = Return s"
| "pass_on_current_volume n (bin # bins) s =
     (if Bin_GetVolume (bmem s bin) \<ge> items_volume s (Items s) \<and> Items s \<noteq> []
      then (case packToBin n s bin (Items s) of
              OutOfFuel \<Rightarrow> OutOfFuel
            | Panic \<Rightarrow> Panic
            | Return (unpacked, s1) \<Rightarrow> pass_on_current_volume n bins (s1\<lparr>Items := unpacked\<rparr>))
      else pass_on_current_volume n bins s)"

section \<open>What packing never changes\<close>

text \<open>
  A relation between the state before and the state after, for the proofs: the packer's
  lists and flag, the volume of every bin and the volume of every item are the same.
\<close>

definition kept :: "Packer \<Rightarrow> Packer \<Rightarrow> bool" where
  "kept s s' =
     (Items s' = Items s \<and> Bins s' = Bins s \<and> UnfitItems s' = UnfitItems s \<and>
      FewestBoxes s' = FewestBoxes s \<and>
      (\<forall>x. Bin_GetVolume (bmem s' x) = Bin_GetVolume (bmem s x)) \<and>
      (\<forall>i. Item_GetVolume (imem s' i) = Item_GetVolume (imem s i)))"

section \<open>Example packers\<close>

text \<open>One bin of 1 x 1 x 1 and two items of 1 x 1 x 1.\<close>

definition overflow_packer :: Packer where
  "overflow_packer =
     AddItem (AddItem (AddBin NewPacker (NewBin ''bin'' 1 1 1 10))
       (NewItem ''first'' 1 1 1 1)) (NewItem ''second'' 1 1 1 1)"

text \<open>One bin of 1 x 1 x 1 and one item of 2 x 2 x 2, which goes in under no rotation.\<close>

definition too_big_packer :: Packer where
  "too_big_packer = AddItem (AddBin NewPacker (NewBin ''bin'' 1 1 1 10)) (NewItem ''item'' 2 2 2 1)"

text \<open>A bin of 2 x 2 x 2 holding one item of 1 x 1 x 1, and a bin of width 0.\<close>

definition one_eighth_packer :: Packer where
  "one_eighth_packer =
     snd (PutItem (AddItem (AddBin NewPacker (NewBin ''bin'' 2 2 2 10))
                     (NewItem ''item'' 1 1 1 1)) 0 0 startPosition)"

definition flat_bin_packer :: Packer where
  "flat_bin_packer = AddBin NewPacker (NewBin ''flat'' 0 2 2 10)"

text \<open>
  With \<open>FewestBoxes\<close> set: bins of 1 x 1 x 1 and 1 x 1 x 8 and one item of 2 x 2 x 2, which
  has the volume of the long bin and goes into neither. \<open>stuck_state\<close> is the packer
  after the first failed \<open>PutItem\<close>: the item carries the origin and the last rotation.
\<close>

definition stuck_packer :: Packer where
  "stuck_packer =
     (AddItem (AddBin (AddBin NewPacker (NewBin ''small'' 1 1 1 10)) (NewBin ''long'' 1 1 8 10))
        (NewItem ''cube'' 2 2 2 1))\<lparr>FewestBoxes := True\<rparr>"

definition stuck_state :: Packer where
  "stuck_state = placed stuck_packer 0 RotationType_WDH startPosition"

text \<open>
  One bin of 1 x 1 x 1, a slab of 1 x 1 x 255/256 and a sheet of 1 x 1/2 x 1/128. The
  sheet is thinner than the tolerance 0.01 of \<open>Intersect\<close>. All the numbers are binary
  fractions, so the \<^verbatim>\<open>float64\<close> arithmetic on them is exact.
\<close>

definition thin_packer :: Packer where
  "thin_packer =
     AddItem (AddItem (AddBin NewPacker (NewBin ''bin'' 1 1 1 10))
       (NewItem ''sheet'' 1 (1 / 2) (1 / 128) 1)) (NewItem ''slab'' 1 1 (255 / 256) 1)"

text \<open>
  Bins A of 2 x 2 x 2, B of 3 x 3 x 1 and C of 4 x 4 x 4; items I1 of 3 x 3 x 7/8, I2 of
  2 x 2 x 7/4 and I3 of 1 x 1 x 1, none of them thin.
\<close>

definition three_bin_packer :: Packer where
  "three_bin_packer =
     AddItem (AddItem (AddItem (AddBin (AddBin (AddBin NewPacker (NewBin ''A'' 2 2 2 10))
        (NewBin ''B'' 3 3 1 10)) (NewBin ''C'' 4 4 4 10))
        (NewItem ''I1'' 3 3 (7 / 8) 1)) (NewItem ''I2'' 2 2 (7 / 4) 1)) (NewItem ''I3'' 1 1 1 1)"

text \<open>
  Bins of 2 x 2 x 2 and 1 x 1 x 9, items X of 2 x 2 x 2 and Y of 2 x 2 x 1/2 (already in
  the order \<open>Pack\<close> sorts them into). \<open>escalation_state\<close> is the packer inside
  \<^verbatim>\<open>packToBin(cube, [X, Y])\<close> when X has been placed and no pivot beside X has taken Y:
  the escalation loop is about to call \<^verbatim>\<open>packToBin(long, append(long.Items, Y))\<close>.
\<close>

definition escalation_packer :: Packer where
  "escalation_packer =
     AddItem (AddItem (AddBin (AddBin NewPacker (NewBin ''cube'' 2 2 2 10)) (NewBin ''long'' 1 1 9 10))
       (NewItem ''X'' 2 2 2 1)) (NewItem ''Y'' 2 2 (1 / 2) 1)"

definition escalation_state :: Packer where
  "escalation_state = snd (lookup (snd (PutItem escalation_packer 0 0 startPosition)) 0 1)"

text \<open>
  A bin of 3 x 1 x 1 with items X of 1 x 2 x 1 and Y of 1 x 1 x 1. In \<open>rotated_packer\<close>
  X has been placed at the origin (it lies rotated, 2 x 1 x 1), and Y is to come.
\<close>

definition upright_packer :: Packer where
  "upright_packer =
     AddItem (AddItem (AddBin NewPacker (NewBin ''bin'' 3 1 1 10))
       (NewItem ''X'' 1 2 1 1)) (NewItem ''Y'' 1 1 1 1)"

definition rotated_packer :: Packer where
  "rotated_packer = snd (PutItem upright_packer 0 0 startPosition)"

text \<open>
  A bin of 3 x 2 x 1 with unit cubes at (0, 0, 0) and (1, 0, 0), neither rotated, and a
  third unit cube to come.
\<close>

definition row_packer :: Packer where
  "row_packer =
     snd (PutItem (snd (PutItem
       (AddItem (AddItem (AddItem (AddBin NewPacker (NewBin ''bin'' 3 2 1 10))
          (NewItem ''first'' 1 1 1 1)) (NewItem ''second'' 1 1 1 1)) (NewItem ''third'' 1 1 1 1))
       0 0 startPosition)) 0 1 (1, 0, 0))"

text \<open>With \<open>FewestBoxes\<close> set: one bin of 1 x 1 x 8 and one item of 2 x 2 x 2.\<close>

definition long_bin_packer :: Packer where
  "long_bin_packer =
     (AddItem (AddBin NewPacker (NewBin ''long'' 1 1 8 10)) (NewItem ''cube'' 2 2 2 1))
       \<lparr>FewestBoxes := True\<rparr>"

text \<open>
  With \<open>FewestBoxes\<close> set: bins of 1 x 1 x 1 and 3 x 3 x 3, items of 2 x 2 x 2 and
  1 x 1 x 1.
\<close>

definition two_bin_packer :: Packer where
  "two_bin_packer =
     (AddItem (AddItem (AddBin (AddBin NewPacker (NewBin ''small'' 1 1 1 10))
        (NewBin ''large'' 3 3 3 10)) (NewItem ''X'' 2 2 2 1)) (NewItem ''Y'' 1 1 1 1))
       \<lparr>FewestBoxes := True\<rparr>"

section \<open>Auxiliary facts\<close>

lemmas RotationType_defs =
  RotationType_WHD_def RotationType_HWD_def RotationType_HDW_def
  RotationType_DHW_def RotationType_DWH_def RotationType_WDH_def

text \<open>
  A loop with fuel is a single unconditional equation; these are unfolded by hand.
\<close>

declare fewest_loop.simps [simp del] greedy_loop.simps [simp del] escalate.simps [simp del]

text \<open>The definitions that evaluate the model on a concrete packer.\<close>

lemmas model_defs = Pack_def NewPacker_def AddBin_def AddItem_def NewBin_def NewItem_def
  sort_Sort_def swap_left_def BinSlice_Less_def ItemSlice_Less_def items_volume_def bins_volume_def
  Item_GetVolume_def Bin_GetVolume_def fewest_boxes_def FindFittedBin_def PutItem_def
  set_position_def set_rotation_def append_item_def sticks_out_def GetDimension_def
  RotationType_defs Intersect_def rectIntersect_def startPosition_def lookup_def
  getBiggerBinThan_def GetAvailableVolume_def GetUsedVolume_def unfitItem_def find_closest_def

lemma intersects_any_iff:
  "intersects_any s ibs item = list_ex (\<lambda>ib. Intersect (imem s ib) (imem s item)) ibs"
  by (induction ibs) auto

lemma sticks_out_iff: "sticks_out b p d = (\<not> contained b p d)"
  by (auto simp: sticks_out_def contained_def)

lemma set_rotation_twice [simp]:
  "set_rotation (set_rotation s item i) item r = set_rotation s item r"
  by (simp add: set_rotation_def)

lemma bmem_set_rotation [simp]: "bmem (set_rotation s item r) = bmem s"
  by (simp add: set_rotation_def)

lemma imem_set_rotation_same [simp]:
  "imem (set_rotation s item r) item = (imem s item)\<lparr>iRotationType := r\<rparr>"
  by (simp add: set_rotation_def)

text \<open>The rotation loop finds the first rotation of its list under which the item is
  contained, and decides on that one.\<close>

lemma PutItem_rotations_find:
  "PutItem_rotations rs s b item p =
     (case find (\<lambda>r. contained (bmem s b) p (GetDimension ((imem s item)\<lparr>iRotationType := r\<rparr>))) rs of
        None \<Rightarrow> (False, if rs = [] then s else set_rotation s item (last rs))
      | Some r \<Rightarrow>
          (if intersects_any (set_rotation s item r) (bItems (bmem s b)) item
           then (False, set_rotation s item r)
           else (True, append_item (set_rotation s item r) b item)))"
proof (induction rs arbitrary: s)
  case Nil
  show ?case by simp
next
  case (Cons i rest)
  show ?case
  proof (cases "contained (bmem s b) p (GetDimension ((imem s item)\<lparr>iRotationType := i\<rparr>))")
    case True
    then show ?thesis by (simp add: sticks_out_iff Let_def)
  next
    case False
    then show ?thesis
      by (simp add: sticks_out_iff Let_def Cons.IH split: option.splits)
  qed
qed

lemma set_rotation_set_position:
  "set_rotation (set_position s item p) item r = placed s item r p"
  by (simp add: set_rotation_def set_position_def placed_def)

lemma PutItem_eq:
  "PutItem s b item p =
     (case first_contained s b item p of
        None \<Rightarrow> (False, placed s item RotationType_WDH p)
      | Some r \<Rightarrow>
          (if list_ex (\<lambda>ib. Intersect (imem (placed s item r p) ib) (imem (placed s item r p) item))
                (bItems (bmem s b))
           then (False, placed s item r p)
           else (True, append_item (placed s item r p) b item)))"
proof -
  have dim: "GetDimension ((imem (set_position s item p) item)\<lparr>iRotationType := r\<rparr>) =
             GetDimension (imem (placed s item r p) item)" for r
    by (simp add: set_position_def placed_def)
  have b: "bmem (set_position s item p) = bmem s"
    by (simp add: set_position_def)
  show ?thesis
    unfolding PutItem_def PutItem_rotations_find first_contained_def dim b
      set_rotation_set_position intersects_any_iff
    by (simp add: rotation_order_def RotationType_defs split: option.splits)
qed

lemma PutItem_cases:
  "PutItem s b item p = (ok, s') \<Longrightarrow>
     \<exists>r. s' = (if ok then append_item (placed s item r p) b item else placed s item r p)"
  unfolding PutItem_eq
  by (auto split: option.splits if_splits)

lemma max_minus_min: "max a b - min a b = \<bar>a - b\<bar>" for a b :: real
  by (simp add: max_def min_def)

lemma rectIntersect_iff: "rectIntersect i1 i2 x y = projection_overlap i1 i2 x y"
  by (simp add: rectIntersect_def projection_overlap_def axis_overlap_def center_def
      Let_def max_minus_min)

subsection \<open>The stuck packer\<close>

lemma stuck_PutItem_small: "PutItem stuck_state 0 0 startPosition = (False, stuck_state)"
  by (simp add: stuck_state_def stuck_packer_def placed_def model_defs)

lemma stuck_PutItem_long: "PutItem stuck_state (Suc 0) 0 startPosition = (False, stuck_state)"
  by (simp add: stuck_state_def stuck_packer_def placed_def model_defs)

lemma stuck_bigger_small: "getBiggerBinThan stuck_state 0 = Some (Suc 0)"
  by (simp add: stuck_state_def stuck_packer_def placed_def model_defs)

lemma stuck_bigger_long: "getBiggerBinThan stuck_state (Suc 0) = None"
  by (simp add: stuck_state_def stuck_packer_def placed_def model_defs)

lemma stuck_Items: "Items stuck_state = [0]"
  by (simp add: stuck_state_def stuck_packer_def placed_def model_defs)

lemma stuck_closest: "find_closest stuck_state (items_volume stuck_state [0]) = Some 0"
  by (simp add: stuck_state_def stuck_packer_def placed_def model_defs)

lemma stuck_Items_update: "stuck_state\<lparr>Items := [0]\<rparr> = stuck_state"
  by (simp add: stuck_state_def stuck_packer_def placed_def model_defs)

text \<open>From the stuck state, \<open>packToBin\<close> hands back the pending list and the same state.\<close>

lemma stuck_packToBin_long:
  "packToBin n stuck_state (Suc 0) [0] = OutOfFuel \<or>
   packToBin n stuck_state (Suc 0) [0] = Return ([0], stuck_state)"
  by (cases n) (simp_all add: stuck_PutItem_long stuck_bigger_long stuck_Items)

lemma stuck_packToBin_small:
  "packToBin n stuck_state 0 [0] = OutOfFuel \<or>
   packToBin n stuck_state 0 [0] = Return ([0], stuck_state)"
  using stuck_packToBin_long
  by (cases n) (simp_all add: stuck_PutItem_small stuck_bigger_small)

text \<open>So every turn of the second \<open>FewestBoxes\<close> loop starts where the last one did.\<close>

lemma stuck_fewest_loop: "fewest_loop n stuck_state = OutOfFuel"
proof (induction n)
  case 0
  show ?case by (simp add: fewest_loop.simps stuck_Items stuck_closest)
next
  case (Suc n)
  from stuck_packToBin_small [of n] show ?case
  proof
    assume "packToBin n stuck_state 0 [0] = OutOfFuel"
    then show ?thesis by (simp add: fewest_loop.simps stuck_Items stuck_closest)
  next
    assume "packToBin n stuck_state 0 [0] = Return ([0], stuck_state)"
    then show ?thesis
      using Suc.IH
      by (subst fewest_loop.simps) (simp add: stuck_Items stuck_closest stuck_Items_update)
  qed
qed

lemma stuck_first_PutItem: "PutItem stuck_packer (Suc 0) 0 startPosition = (False, stuck_state)"
  by (simp add: stuck_state_def stuck_packer_def placed_def model_defs)

lemma stuck_fewest_pass:
  "fewest_pass n 8 [0, Suc 0] stuck_packer = OutOfFuel \<or>
   fewest_pass n 8 [0, Suc 0] stuck_packer = Return stuck_state"
proof (cases n)
  case 0
  then show ?thesis by (simp add: stuck_packer_def model_defs)
next
  case (Suc m)
  have b: "Bin_GetVolume (bmem stuck_packer 0) = 1" "Bin_GetVolume (bmem stuck_packer (Suc 0)) = 8"
    "Items stuck_packer = [0]"
    by (simp_all add: stuck_packer_def model_defs)
  show ?thesis
    by (simp add: Suc b stuck_first_PutItem stuck_bigger_long stuck_Items stuck_Items_update)
qed

lemma stuck_fewest_boxes: "fewest_boxes n 8 stuck_packer = OutOfFuel"
proof -
  have "Bins stuck_packer = [0, Suc 0]" "FewestBoxes stuck_packer"
    by (simp_all add: stuck_packer_def model_defs)
  then show ?thesis
    using stuck_fewest_pass [of n] stuck_fewest_loop [of n]
    by (auto simp: fewest_boxes_def simp del: fewest_pass.simps)
qed

subsection \<open>The pivot search\<close>

lemma try_candidates_append:
  "try_candidates (cs @ ds) s b i =
     (case try_candidates cs s b i of
        (True, s1) \<Rightarrow> (True, s1)
      | (False, s1) \<Rightarrow> try_candidates ds s1 b i)"
  by (induction cs arbitrary: s) (auto split: prod.splits bool.splits)

lemma PutItem_False_bmem: "PutItem s b item p = (False, s') \<Longrightarrow> bmem s' = bmem s"
  by (drule PutItem_cases) (auto simp: placed_def)

lemma try_candidates_False_bmem:
  "try_candidates cs s b i = (False, s') \<Longrightarrow> bmem s' = bmem s"
proof (induction cs arbitrary: s)
  case Nil
  then show ?case by simp
next
  case (Cons c cs)
  obtain pt ib where c: "c = (pt, ib)" by (cases c)
  obtain ok s1 where p: "PutItem s b i (pivot_beside pt (imem s ib)) = (ok, s1)"
    by (cases "PutItem s b i (pivot_beside pt (imem s ib))")
  with Cons.prems c have ok: "\<not> ok" and rest: "try_candidates cs s1 b i = (False, s')"
    by (auto split: bool.splits)
  from p ok have "bmem s1 = bmem s" by (simp add: PutItem_False_bmem)
  with Cons.IH [OF rest] show ?case by simp
qed

lemma lookup_occupants_candidates:
  "lookup_occupants pt ibs s b i = try_candidates (map (Pair pt) ibs) s b i"
  by (induction ibs arbitrary: s) (auto simp: Let_def split: prod.splits bool.splits)

lemma lookup_axes_candidates:
  "lookup_axes pts s b i =
     try_candidates (concat (map (\<lambda>pt. map (Pair pt) (bItems (bmem s b))) pts)) s b i"
proof (induction pts arbitrary: s)
  case Nil
  show ?case by simp
next
  case (Cons pt pts)
  obtain ok s1 where t: "try_candidates (map (Pair pt) (bItems (bmem s b))) s b i = (ok, s1)"
    by (cases "try_candidates (map (Pair pt) (bItems (bmem s b))) s b i")
  show ?case
  proof (cases ok)
    case True
    with t show ?thesis
      by (simp add: lookup_occupants_candidates try_candidates_append)
  next
    case False
    with t have "bmem s1 = bmem s" by (simp add: try_candidates_False_bmem)
    with t False show ?thesis
      by (simp add: lookup_occupants_candidates try_candidates_append Cons.IH)
  qed
qed

subsection \<open>Packing keeps the lists, the bins' volumes and the items' volumes\<close>

lemma kept_refl: "kept s s"
  by (simp add: kept_def)

lemma kept_trans: "kept s t \<Longrightarrow> kept t u \<Longrightarrow> kept s u"
  by (simp add: kept_def)

lemma PutItem_kept: "PutItem s b item p = (ok, s') \<Longrightarrow> kept s s'"
  by (drule PutItem_cases)
    (auto simp: kept_def placed_def append_item_def Bin_GetVolume_def Item_GetVolume_def
      split: if_splits)

lemma lookup_occupants_kept: "lookup_occupants pt ibs s b i = (ok, s') \<Longrightarrow> kept s s'"
proof (induction ibs arbitrary: s)
  case Nil
  then show ?case by (simp add: kept_refl)
next
  case (Cons ib ibs)
  obtain ok1 s1 where p: "PutItem s b i (pivot_beside pt (imem s ib)) = (ok1, s1)"
    by (cases "PutItem s b i (pivot_beside pt (imem s ib))")
  note k = PutItem_kept [OF p]
  show ?case
  proof (cases ok1)
    case True
    with Cons.prems p k show ?thesis by (simp add: Let_def)
  next
    case False
    with Cons.prems p have "lookup_occupants pt ibs s1 b i = (ok, s')" by (simp add: Let_def)
    from kept_trans [OF k Cons.IH [OF this]] show ?thesis .
  qed
qed

lemma lookup_axes_kept: "lookup_axes pts s b i = (ok, s') \<Longrightarrow> kept s s'"
proof (induction pts arbitrary: s)
  case Nil
  then show ?case by (simp add: kept_refl)
next
  case (Cons pt pts)
  obtain ok1 s1 where p: "lookup_occupants pt (bItems (bmem s b)) s b i = (ok1, s1)"
    by (cases "lookup_occupants pt (bItems (bmem s b)) s b i")
  note k = lookup_occupants_kept [OF p]
  show ?case
  proof (cases ok1)
    case True
    with Cons.prems p k show ?thesis by simp
  next
    case False
    with Cons.prems p have "lookup_axes pts s1 b i = (ok, s')" by simp
    from kept_trans [OF k Cons.IH [OF this]] show ?thesis .
  qed
qed

lemma lookup_kept: "lookup s b i = (ok, s') \<Longrightarrow> kept s s'"
  unfolding lookup_def by (rule lookup_axes_kept)

lemma packToBin_kept_aux:
  "\<forall>u s'. packToBin n s b items = Return (u, s') \<longrightarrow> kept s s'"
  "\<forall>u s'. pack_rest n s b rest unpacked = Return (u, s') \<longrightarrow> kept s s'"
  "\<forall>f b' s'. escalate n s b i = Return (f, b', s') \<longrightarrow> kept s s'"
proof (induction n s b items and n s b rest unpacked and n s b i
    rule: packToBin_pack_rest_escalate.induct)
  case (1 s b items)
  show ?case by simp
next
  case (2 n s b)
  show ?case by simp
next
  case (3 n s b i0 rest)
  show ?case
  proof (intro allI impI)
    fix u s'
    assume a: "packToBin (Suc n) s b (i0 # rest) = Return (u, s')"
    obtain ok s1 where p: "PutItem s b i0 startPosition = (ok, s1)"
      by (cases "PutItem s b i0 startPosition")
    note k = PutItem_kept [OF p]
    show "kept s s'"
    proof (cases ok)
      case True
      then have t: "ok = True" by simp
      from a p t have "pack_rest n s1 b rest [] = Return (u, s')" by simp
      with 3(1) [OF p [symmetric] t] have "kept s1 s'" by simp
      with k show ?thesis by (rule kept_trans)
    next
      case False
      then have f: "ok = False" by simp
      show ?thesis
      proof (cases "getBiggerBinThan s1 b")
        case None
        with a p f have "s' = s1" by simp
        with k show ?thesis by simp
      next
        case (Some b2)
        with a p f have "packToBin n s1 b2 (i0 # rest) = Return (u, s')" by simp
        with 3(2) [OF p [symmetric] f Some] have "kept s1 s'" by simp
        with k show ?thesis by (rule kept_trans)
      qed
    qed
  qed
next
  case (4 n s b unpacked)
  show ?case by (simp add: kept_refl)
next
  case (5 n s b i rest unpacked)
  show ?case
  proof (intro allI impI)
    fix u s'
    assume a: "pack_rest n s b (i # rest) unpacked = Return (u, s')"
    obtain ok s1 where p: "lookup s b i = (ok, s1)"
      by (cases "lookup s b i")
    note k = lookup_kept [OF p]
    show "kept s s'"
    proof (cases ok)
      case True
      then have t: "ok = True" by simp
      from a p t have "pack_rest n s1 b rest unpacked = Return (u, s')" by simp
      with 5(1) [OF p [symmetric] t] have "kept s1 s'" by simp
      with k show ?thesis by (rule kept_trans)
    next
      case False
      then have f: "ok = False" by simp
      from a p f obtain fitted b' s2 where
        r: "escalate n s1 b i = Return (fitted, b', s2)" and
        c: "pack_rest n s2 b' rest (if fitted then unpacked else unpacked @ [i]) = Return (u, s')"
        by (auto split: outcome.splits)
      from 5(2) [OF p [symmetric] f] r have k2: "kept s1 s2" by simp
      from 5(3) [OF p [symmetric] f r refl refl] c have k3: "kept s2 s'" by simp
      from kept_trans [OF k kept_trans [OF k2 k3]] show ?thesis .
    qed
  qed
next
  case (6 n s b i)
  show ?case
  proof (intro allI impI)
    fix f b' s'
    assume a: "escalate n s b i = Return (f, b', s')"
    show "kept s s'"
    proof (cases "getBiggerBinThan s b")
      case None
      with a have "s' = s" by (simp add: escalate.simps)
      then show ?thesis by (simp add: kept_refl)
    next
      case (Some b2)
      with a obtain m where n: "n = Suc m"
        by (cases n) (simp_all add: escalate.simps)
      from a Some n obtain left s1 where
        r: "packToBin m s b2 (bItems (bmem s b2) @ [i]) = Return (left, s1)"
        by (subst (asm) escalate.simps) (auto split: outcome.splits)
      from 6(1) [OF Some n] r have k1: "kept s s1" by simp
      show ?thesis
      proof (cases "left = []")
        case True
        with a Some n r have "s' = s1" by (subst (asm) escalate.simps) simp
        with k1 show ?thesis by simp
      next
        case False
        with a Some n r have "escalate m s1 b2 i = Return (f, b', s')"
          by (subst (asm) escalate.simps) simp
        with 6(2) [OF Some n r refl False] have "kept s1 s'" by simp
        with k1 show ?thesis by (rule kept_trans)
      qed
    qed
  qed
qed

lemma packToBin_kept: "packToBin n s b items = Return (u, s') \<Longrightarrow> kept s s'"
  using packToBin_kept_aux(1) by blast

lemma escalate_kept: "escalate n s b i = Return (f, b', s') \<Longrightarrow> kept s s'"
  using packToBin_kept_aux(3) by blast

lemma packToBin_Bin_GetVolume:
  "packToBin n s b items = Return (u, s') \<Longrightarrow>
     Bin_GetVolume (bmem s' x) = Bin_GetVolume (bmem s x)"
  by (drule packToBin_kept) (simp add: kept_def)

subsection \<open>What packToBin returns\<close>

lemma foldl_add_sum_list:
  fixes f :: "'a \<Rightarrow> real"
  shows "foldl (\<lambda>acc x. acc + f x) a xs = a + sum_list (map f xs)"
  by (induction xs arbitrary: a) simp_all

lemma items_volume_sum_list:
  "items_volume s xs = sum_list (map (\<lambda>i. Item_GetVolume (imem s i)) xs)"
  by (simp add: items_volume_def foldl_add_sum_list)

lemma sum_list_map_nonneg:
  fixes f :: "'a \<Rightarrow> real"
  shows "list_all (\<lambda>y. 0 \<le> f y) ys \<Longrightarrow> 0 \<le> sum_list (map f ys)"
  by (induction ys) auto

lemma subseq_sum_list_le:
  fixes f :: "'a \<Rightarrow> real"
  shows "subseq xs ys \<Longrightarrow> list_all (\<lambda>y. 0 \<le> f y) ys \<Longrightarrow>
         sum_list (map f xs) \<le> sum_list (map f ys)"
proof (induction rule: list_emb.induct)
  case (list_emb_Nil ys)
  then show ?case by (simp add: sum_list_map_nonneg)
next
  case (list_emb_Cons xs ys y)
  then show ?case by auto
next
  case (list_emb_Cons2 x y xs ys)
  then show ?case by auto
qed

lemma subseq_list_all: "subseq xs ys \<Longrightarrow> list_all P ys \<Longrightarrow> list_all P xs"
  by (induction rule: list_emb.induct) auto

lemma pack_rest_subseq:
  "pack_rest n s b rest unpacked = Return (u, s') \<Longrightarrow> \<exists>ys. u = unpacked @ ys \<and> subseq ys rest"
proof (induction rest arbitrary: s b unpacked)
  case Nil
  then show ?case by simp
next
  case (Cons i rest)
  obtain ok s1 where p: "lookup s b i = (ok, s1)"
    by (cases "lookup s b i")
  show ?case
  proof (cases ok)
    case True
    with Cons.prems p have "pack_rest n s1 b rest unpacked = Return (u, s')" by simp
    from Cons.IH [OF this] show ?thesis by auto
  next
    case False
    with Cons.prems p obtain fitted b' s2 where
      c: "pack_rest n s2 b' rest (if fitted then unpacked else unpacked @ [i]) = Return (u, s')"
      by (auto split: outcome.splits)
    from Cons.IH [OF c] obtain ys where
      ys: "u = (if fitted then unpacked else unpacked @ [i]) @ ys" "subseq ys rest"
      by auto
    show ?thesis
    proof (cases fitted)
      case True
      with ys show ?thesis by auto
    next
      case False
      with ys have "u = unpacked @ (i # ys)" "subseq (i # ys) (i # rest)" by simp_all
      then show ?thesis by blast
    qed
  qed
qed

lemma packToBin_result:
  "packToBin n s b items = Return (u, s') \<Longrightarrow> u = Items s \<or> subseq u (tl items)"
proof (induction n arbitrary: s b)
  case 0
  then show ?case by simp
next
  case (Suc n)
  show ?case
  proof (cases items)
    case Nil
    with Suc.prems show ?thesis by simp
  next
    case (Cons i0 rest)
    obtain ok s1 where p: "PutItem s b i0 startPosition = (ok, s1)"
      by (cases "PutItem s b i0 startPosition")
    from PutItem_kept [OF p] have i: "Items s1 = Items s" by (simp add: kept_def)
    show ?thesis
    proof (cases ok)
      case True
      with Suc.prems Cons p have "pack_rest n s1 b rest [] = Return (u, s')" by simp
      from pack_rest_subseq [OF this] Cons show ?thesis by auto
    next
      case False
      show ?thesis
      proof (cases "getBiggerBinThan s1 b")
        case None
        with Suc.prems Cons p False i show ?thesis by simp
      next
        case (Some b2)
        with Suc.prems Cons p False have "packToBin n s1 b2 items = Return (u, s')" by simp
        from Suc.IH [OF this] i show ?thesis by simp
      qed
    qed
  qed
qed

lemma packToBin_pending_volume:
  assumes r: "packToBin n s b (Items s) = Return (u, s')"
    and nonneg: "list_all (\<lambda>i. 0 \<le> Item_GetVolume (imem s i)) (Items s)"
  shows "items_volume s' u \<le> items_volume s (Items s)"
    and "list_all (\<lambda>i. 0 \<le> Item_GetVolume (imem s' i)) u"
proof -
  from packToBin_kept [OF r] have v: "Item_GetVolume (imem s' i) = Item_GetVolume (imem s i)" for i
    by (simp add: kept_def)
  have "subseq u (Items s)"
  proof -
    from packToBin_result [OF r] show ?thesis
    proof
      assume "u = Items s"
      then show ?thesis by simp
    next
      assume "subseq u (tl (Items s))"
      then show ?thesis by (cases "Items s") auto
    qed
  qed
  with nonneg show "items_volume s' u \<le> items_volume s (Items s)"
    "list_all (\<lambda>i. 0 \<le> Item_GetVolume (imem s' i)) u"
    by (simp_all add: items_volume_sum_list v subseq_sum_list_le subseq_list_all)
qed

subsection \<open>The insertion sort\<close>

lemma swap_left_snoc:
  "swap_left lt (ys @ [y]) x = (if lt x y then swap_left lt ys x @ [y] else ys @ [y, x])"
  by (simp add: swap_left_def)

lemma set_swap_left: "set (swap_left lt ys x) = insert x (set ys)"
proof -
  have "set (rev (dropWhile (lt x) (rev ys))) \<union> set (rev (takeWhile (lt x) (rev ys))) = set ys"
    by (metis rev_append set_append set_rev sup_commute takeWhile_dropWhile_id)
  then show ?thesis by (auto simp: swap_left_def)
qed

lemma sorted_swap_left:
  fixes f :: "'a \<Rightarrow> real"
  shows "sorted (map f ys) \<Longrightarrow> sorted (map f (swap_left (\<lambda>a b. f a < f b) ys x))"
proof (induction ys rule: rev_induct)
  case Nil
  show ?case by (simp add: swap_left_def)
next
  case (snoc y ys)
  from snoc.prems have s: "sorted (map f ys)" and le: "\<forall>z\<in>set ys. f z \<le> f y"
    by (auto simp: sorted_append)
  show ?case
  proof (cases "f x < f y")
    case True
    with snoc.IH [OF s] le show ?thesis
      by (auto simp: swap_left_snoc sorted_append set_swap_left)
  next
    case False
    with snoc.prems show ?thesis
      by (auto simp: swap_left_snoc sorted_append)
  qed
qed

lemma sorted_sort_Sort_aux:
  fixes f :: "'a \<Rightarrow> real"
  shows "sorted (map f acc) \<Longrightarrow> sorted (map f (foldl (swap_left (\<lambda>a b. f a < f b)) acc xs))"
  by (induction xs arbitrary: acc) (simp_all add: sorted_swap_left)

lemma sorted_sort_Sort:
  fixes f :: "'a \<Rightarrow> real"
  shows "sorted (map f (sort_Sort (\<lambda>a b. f a < f b) xs))"
  unfolding sort_Sort_def by (rule sorted_sort_Sort_aux) simp

lemma mset_swap_left: "mset (swap_left lt xs x) = add_mset x (mset xs)"
proof -
  have "mset (dropWhile (lt x) (rev xs)) + mset (takeWhile (lt x) (rev xs)) = mset (rev xs)"
    by (metis add.commute mset_append takeWhile_dropWhile_id)
  then show ?thesis by (simp add: swap_left_def)
qed

lemma mset_sort_Sort_aux: "mset (foldl (swap_left lt) acc xs) = mset acc + mset xs"
  by (induction xs arbitrary: acc) (simp_all add: mset_swap_left)

lemma mset_sort_Sort: "mset (sort_Sort lt xs) = mset xs"
  by (simp add: sort_Sort_def mset_sort_Sort_aux)

subsection \<open>The first FewestBoxes pass\<close>

lemma fewest_pass_filter:
  "fewest_pass n v bins s =
     attempt_each n (filter (\<lambda>bin. v \<le> Bin_GetVolume (bmem s bin)) bins) s"
proof (induction bins arbitrary: s)
  case Nil
  show ?case by simp
next
  case (Cons bin bins)
  show ?case
  proof (cases "v \<le> Bin_GetVolume (bmem s bin) \<and> Items s \<noteq> []")
    case False
    then show ?thesis by (auto simp: Cons.IH)
  next
    case True
    show ?thesis
    proof (cases "packToBin n s bin (Items s)")
      case OutOfFuel
      with True show ?thesis by simp
    next
      case Panic
      with True show ?thesis by simp
    next
      case (Return r)
      obtain unpacked s1 where r: "r = (unpacked, s1)" by (cases r)
      from Return r have "Bin_GetVolume (bmem s1 x) = Bin_GetVolume (bmem s x)" for x
        by (simp add: packToBin_Bin_GetVolume)
      then have "filter (\<lambda>bin. v \<le> Bin_GetVolume (bmem (s1\<lparr>Items := unpacked\<rparr>) bin)) bins =
                 filter (\<lambda>bin. v \<le> Bin_GetVolume (bmem s bin)) bins"
        by simp
      with True Return r show ?thesis by (simp add: Cons.IH)
    qed
  qed
qed

text \<open>
  With the bins in ascending order and no item of negative volume, the test against
  \<open>itemVolumeSum\<close> and the test against the volume that remains choose the same bins:
  until the first call of \<open>packToBin\<close> the two volumes are equal, and every bin after it
  is at least as large as the bin of that call.
\<close>

lemma fewest_pass_current:
  assumes "sorted (map (\<lambda>bin. Bin_GetVolume (bmem s bin)) bins)"
    and "list_all (\<lambda>i. 0 \<le> Item_GetVolume (imem s i)) (Items s)"
    and "items_volume s (Items s) \<le> v"
    and "items_volume s (Items s) = v \<or> (\<forall>bin\<in>set bins. v \<le> Bin_GetVolume (bmem s bin))"
  shows "fewest_pass n v bins s = pass_on_current_volume n bins s"
  using assms
proof (induction bins arbitrary: s)
  case Nil
  show ?case by simp
next
  case (Cons bin bins)
  from Cons.prems(1) have sorted_tl: "sorted (map (\<lambda>bin. Bin_GetVolume (bmem s bin)) bins)"
    and above: "\<forall>b\<in>set bins. Bin_GetVolume (bmem s bin) \<le> Bin_GetVolume (bmem s b)"
    by simp_all
  from Cons.prems(3,4)
  have cond: "(v \<le> Bin_GetVolume (bmem s bin)) = (items_volume s (Items s) \<le> Bin_GetVolume (bmem s bin))"
    by auto
  from Cons.prems(4)
  have tl4: "items_volume s (Items s) = v \<or> (\<forall>bin\<in>set bins. v \<le> Bin_GetVolume (bmem s bin))"
    by auto
  note skip = Cons.IH [OF sorted_tl Cons.prems(2) Cons.prems(3) tl4]
  show ?case
  proof (cases "v \<le> Bin_GetVolume (bmem s bin) \<and> Items s \<noteq> []")
    case False
    with cond skip show ?thesis by auto
  next
    case True
    show ?thesis
    proof (cases "packToBin n s bin (Items s)")
      case OutOfFuel
      with True cond show ?thesis by simp
    next
      case Panic
      with True cond show ?thesis by simp
    next
      case (Return r)
      obtain u s1 where r: "r = (u, s1)" by (cases r)
      from Return r have p: "packToBin n s bin (Items s) = Return (u, s1)" by simp
      from packToBin_kept [OF p]
      have bv: "Bin_GetVolume (bmem s1 x) = Bin_GetVolume (bmem s x)" for x
        by (simp add: kept_def)
      note pv = packToBin_pending_volume [OF p Cons.prems(2)]
      let ?s2 = "s1\<lparr>Items := u\<rparr>"
      have 1: "sorted (map (\<lambda>bin. Bin_GetVolume (bmem ?s2 bin)) bins)"
        using sorted_tl by (simp add: bv)
      have 2: "list_all (\<lambda>i. 0 \<le> Item_GetVolume (imem ?s2 i)) (Items ?s2)"
        using pv(2) by simp
      have iv: "items_volume ?s2 u = items_volume s1 u"
        by (simp add: items_volume_def)
      have 3: "items_volume ?s2 (Items ?s2) \<le> v"
        using pv(1) Cons.prems(3) by (simp add: iv)
      have 4: "items_volume ?s2 (Items ?s2) = v \<or> (\<forall>bin\<in>set bins. v \<le> Bin_GetVolume (bmem ?s2 bin))"
        using above True by (auto simp: bv)
      from Cons.IH [OF 1 2 3 4] True cond p show ?thesis by simp
    qed
  qed
qed

section \<open>The claims\<close>

subsection \<open>C1: one unit bin, two unit items\<close>

text \<open>
  C1, as stated: with one bin of 1 x 1 x 1 and two items of 1 x 1 x 1, \<open>Pack\<close> packs the
  first item, the second ends in \<open>UnfitItems\<close> and the error is \<open>ErrUnfitItemsExist\<close>.
  The code does not get that far: the error is another one, nothing is placed and
  nothing is unfit.
\<close>

theorem Pack_overflow_counterexample:
  "(case Pack 10 overflow_packer of
      Return (e, s) \<Rightarrow> e \<noteq> Some ErrUnfitItemsExist \<and> bItems (bmem s 0) = [] \<and> UnfitItems s = []
    | _ \<Rightarrow> False)"
  by (simp add: overflow_packer_def model_defs)

text \<open>
  C1, amended: with one bin of 1 x 1 x 1 and two items of 1 x 1 x 1 (whatever their names
  and weights, and whatever the \<open>FewestBoxes\<close> flag), the total item volume 2 exceeds the
  total bin volume 1, so \<open>Pack\<close> returns \<open>ErrInvalidBinsVolume\<close> before any placement: the
  packer is as it was, the bin empty and \<open>UnfitItems\<close> empty.
\<close>

theorem Pack_overflow_InvalidBinsVolume:
  "Pack n ((AddItem (AddItem (AddBin NewPacker (NewBin bn 1 1 1 mw))
              (NewItem n1 1 1 1 w1)) (NewItem n2 1 1 1 w2))\<lparr>FewestBoxes := f\<rparr>) =
   Return (Some ErrInvalidBinsVolume,
     (AddItem (AddItem (AddBin NewPacker (NewBin bn 1 1 1 mw))
        (NewItem n1 1 1 1 w1)) (NewItem n2 1 1 1 w2))\<lparr>FewestBoxes := f\<rparr>)"
  by (simp add: model_defs)

subsection \<open>C2: termination of Pack\<close>

text \<open>
  C2 says that \<open>Pack\<close> terminates on every finite collection of bins and items with
  non-negative dimensions, the second \<open>FewestBoxes\<close> loop included. On \<open>stuck_packer\<close> it
  does not: the loop picks the small bin, \<open>packToBin\<close> fails there and in the long bin
  and returns \<^verbatim>\<open>p.Items\<close> as it was, nothing has changed, and the loop picks the small bin
  again. No amount of fuel lets \<open>Pack\<close> return. Without the flag, \<open>Pack\<close> returns on the
  same bins and item: the last loop declares the item unfit.
\<close>

theorem Pack_FewestBoxes_diverges:
  "Pack n stuck_packer = OutOfFuel \<and>
   (case Pack 2 (stuck_packer\<lparr>FewestBoxes := False\<rparr>) of
      Return (e, s) \<Rightarrow> e = Some ErrUnfitItemsExist \<and> UnfitItems s = [0]
    | _ \<Rightarrow> False)"
proof -
  have sorted: "sort_Sort (BinSlice_Less stuck_packer) [0, Suc 0] = [0, Suc 0]"
    "sort_Sort lt [0] = [0]" for lt :: "nat \<Rightarrow> nat \<Rightarrow> bool"
    by (simp_all add: stuck_packer_def model_defs)
  have same: "stuck_packer\<lparr>Bins := [0, Suc 0]\<rparr> = stuck_packer"
    "stuck_packer\<lparr>Items := [0]\<rparr> = stuck_packer"
    by (simp_all add: stuck_packer_def model_defs)
  have vols: "Bins stuck_packer = [0, Suc 0]" "Items stuck_packer = [0]"
    "Bin_GetVolume (bmem stuck_packer (Suc 0)) = 8" "Item_GetVolume (imem stuck_packer 0) = 8"
    "items_volume stuck_packer [0] = 8" "bins_volume stuck_packer [0, Suc 0] = 9"
    by (simp_all add: stuck_packer_def model_defs)
  have "Pack n stuck_packer = OutOfFuel"
    by (simp add: Pack_def vols sorted same Let_def stuck_fewest_boxes)
  moreover have "(case Pack 2 (stuck_packer\<lparr>FewestBoxes := False\<rparr>) of
      Return (e, s) \<Rightarrow> e = Some ErrUnfitItemsExist \<and> UnfitItems s = [0]
    | _ \<Rightarrow> False)"
    by (simp add: stuck_packer_def model_defs greedy_loop.simps eval_nat_numeral)
  ultimately show ?thesis by simp
qed

subsection \<open>C3: every item in exactly one place\<close>

text \<open>
  C3 says that after \<open>Pack\<close> every item is in exactly one bin's \<open>Items\<close> or in
  \<open>UnfitItems\<close>, and that the counts add up to the number of items added. Two packers
  on which \<open>Pack\<close> succeeds and breaks it:
  \<^item> On \<open>three_bin_packer\<close> item I1 (item 0) ends in bin B and in bin C: three items, four
    entries. I1 goes to B, I2 escalates to A, and I3, which finds no pivot in A,
    escalates to B with \<^verbatim>\<open>append(B.Items, I3)\<close>, the list [I1, I3]. I1 cannot be put into
    B once more (it intersects itself), so \<open>packToBin\<close> moves on with the whole list to
    C, where I1 is placed a second time.
  \<^item> On \<open>thin_packer\<close> the sheet (item 0) is twice in the one bin's list: two items,
    three entries. The slab goes in first and no pivot beside it takes the sheet;
    \<open>FindFittedBin\<close> then places the sheet at the origin (it does not intersect the slab
    within the tolerance) and leaves it there, the bin having two occupants, and
    \<open>packToBin\<close> places it once more.
\<close>

theorem Pack_places_item_twice:
  "(case Pack 6 three_bin_packer of
      Return (e, s) \<Rightarrow>
        e = None \<and> Items s = [] \<and> UnfitItems s = [] \<and> Bins s = [0, 1, 2] \<and>
        bItems (bmem s 0) = [1] \<and> bItems (bmem s 1) = [0] \<and> bItems (bmem s 2) = [0, 2]
    | _ \<Rightarrow> False) \<and>
   (case Pack 3 thin_packer of
      Return (e, s) \<Rightarrow>
        e = None \<and> Items s = [] \<and> UnfitItems s = [] \<and> Bins s = [0] \<and>
        bItems (bmem s 0) = [1, 0, 0]
    | _ \<Rightarrow> False)"
proof -
  have "(case Pack 6 three_bin_packer of
      Return (e, s) \<Rightarrow>
        e = None \<and> Items s = [] \<and> UnfitItems s = [] \<and> Bins s = [0, 1, 2] \<and>
        bItems (bmem s 0) = [1] \<and> bItems (bmem s 1) = [0] \<and> bItems (bmem s 2) = [0, 2]
    | _ \<Rightarrow> False)"
    by code_simp
  moreover have "(case Pack 3 thin_packer of
      Return (e, s) \<Rightarrow>
        e = None \<and> Items s = [] \<and> UnfitItems s = [] \<and> Bins s = [0] \<and>
        bItems (bmem s 0) = [1, 0, 0]
    | _ \<Rightarrow> False)"
    by code_simp
  ultimately show ?thesis by simp
qed

subsection \<open>C4: what packToBin returns\<close>

text \<open>
  C4 says that \<open>packToBin\<close> returns members of its \<open>items\<close> argument, those that could
  not be placed. In \<open>escalation_state\<close> the escalation loop calls it for the long bin
  with the one-element list [Y] (Y is item 1). Y does not go in, there is no bigger bin,
  and the call returns \<^verbatim>\<open>p.Items\<close>, which is [X, Y]: X (item 0) is no member of the
  argument, and it is packed, in the bin of 2 x 2 x 2.
\<close>

theorem packToBin_returns_pending_list:
  "fst (PutItem escalation_packer 0 0 startPosition) = True \<and>
   fst (lookup (snd (PutItem escalation_packer 0 0 startPosition)) 0 1) = False \<and>
   getBiggerBinThan escalation_state 0 = Some 1 \<and>
   bItems (bmem escalation_state 1) @ [1] = [1] \<and>
   (case packToBin 1 escalation_state 1 [1] of
      Return (left, s) \<Rightarrow> left = [0, 1] \<and> bItems (bmem s 0) = [0] \<and> bItems (bmem s 1) = []
    | _ \<Rightarrow> False)"
  by (simp add: escalation_state_def escalation_packer_def model_defs)

subsection \<open>C5: the pivot candidates of packToBin\<close>

text \<open>
  C5, as stated: the candidates are at the far edge of each occupant under its placed
  extent, and they are tried occupant by occupant. Neither holds.
  \<^item> In \<open>rotated_packer\<close> the occupant X lies rotated (HWD), 2 wide; the code adds its
    intrinsic width 1 and offers the pivot (1, 0, 0), inside X, where the far edge is
    (2, 0, 0). The search of the code fails for Y; the search as stated finds a place.
  \<^item> In \<open>row_packer\<close> both occupants are unrotated. The code tries the pivots along the
    width of every occupant first and puts the third cube at (2, 0, 0); occupant by
    occupant, it would go to (0, 1, 0).
\<close>

theorem lookup_counterexample:
  "iRotationType (imem rotated_packer 0) = RotationType_HWD \<and>
   pivot_beside WidthAxis (imem rotated_packer 0) = (1, 0, 0) \<and>
   far_edge WidthAxis (imem rotated_packer 0) = (2, 0, 0) \<and>
   fst (lookup rotated_packer 0 1) = False \<and>
   fst (spec_lookup rotated_packer 0 1) = True \<and>
   iRotationType (imem row_packer 0) = RotationType_WHD \<and>
   iRotationType (imem row_packer 1) = RotationType_WHD \<and>
   bItems (bmem row_packer 0) = [0, 1] \<and>
   fst (lookup row_packer 0 2) = True \<and>
   iPosition (imem (snd (lookup row_packer 0 2)) 2) = (2, 0, 0) \<and>
   fst (spec_lookup row_packer 0 2) = True \<and>
   iPosition (imem (snd (spec_lookup row_packer 0 2)) 2) = (0, 1, 0)"
  by code_simp

text \<open>
  C5, amended: the candidates are tried axis by axis (along the width of every occupant
  in the order of the bin's list, then along the height, then along the depth), up to
  the first success of \<open>PutItem\<close>; a candidate along an axis has the occupant's position
  on the other two axes, and from an occupant whose rotation is WHD it is the far edge of
  the placed extent. (For a rotated occupant the code adds the intrinsic width, height
  or depth; the amended claim says nothing of it.)
\<close>

theorem lookup_axis_then_occupant:
  "lookup s b i =
     try_candidates (List.product [WidthAxis, HeightAxis, DepthAxis] (bItems (bmem s b))) s b i \<and>
   (iRotationType ib = RotationType_WHD \<longrightarrow> pivot_beside pt ib = far_edge pt ib) \<and>
   (a \<noteq> pt \<longrightarrow> coord (pivot_beside pt ib) a = coord (iPosition ib) a)"
  by (cases pt; cases a; cases "iPosition ib")
    (simp_all add: lookup_def lookup_axes_candidates far_edge_def GetDimension_def)

theorem lookup_axis_then_occupant_witness:
  "lookup row_packer 0 2 =
     try_candidates [(WidthAxis, 0), (WidthAxis, 1), (HeightAxis, 0), (HeightAxis, 1),
                     (DepthAxis, 0), (DepthAxis, 1)] row_packer 0 2 \<and>
   iRotationType (imem row_packer 1) = RotationType_WHD \<and>
   pivot_beside WidthAxis (imem row_packer 1) = (2, 0, 0) \<and>
   far_edge WidthAxis (imem row_packer 1) = (2, 0, 0) \<and>
   HeightAxis \<noteq> WidthAxis \<and>
   coord (pivot_beside WidthAxis (imem row_packer 1)) HeightAxis =
     coord (iPosition (imem row_packer 1)) HeightAxis"
proof -
  note t = lookup_axis_then_occupant [of row_packer 0 2 "imem row_packer 1" WidthAxis HeightAxis]
  have h: "iRotationType (imem row_packer 1) = RotationType_WHD"
    by code_simp
  have o: "List.product [WidthAxis, HeightAxis, DepthAxis] (bItems (bmem row_packer 0)) =
             [(WidthAxis, 0), (WidthAxis, 1), (HeightAxis, 0), (HeightAxis, 1),
              (DepthAxis, 0), (DepthAxis, 1)]"
    by code_simp
  have p: "pivot_beside WidthAxis (imem row_packer 1) = (2, 0, 0)"
    by code_simp
  have d: "HeightAxis \<noteq> WidthAxis"
    by simp
  from t o have 1: "lookup row_packer 0 2 =
     try_candidates [(WidthAxis, 0), (WidthAxis, 1), (HeightAxis, 0), (HeightAxis, 1),
                     (DepthAxis, 0), (DepthAxis, 1)] row_packer 0 2"
    by (simp only:)
  from t h p have 2: "far_edge WidthAxis (imem row_packer 1) = (2, 0, 0)"
    by (simp only:)
  from t d have 3: "coord (pivot_beside WidthAxis (imem row_packer 1)) HeightAxis =
     coord (iPosition (imem row_packer 1)) HeightAxis"
    by blast
  from 1 h p 2 d 3 show ?thesis by blast
qed

subsection \<open>C6: what a failed PutItem leaves behind\<close>

text \<open>
  C6, as stated: when \<open>PutItem\<close> returns false, the item's recorded \<open>Position\<close> is what it
  was before the call. The first statement of \<open>PutItem\<close> overwrites it with the pivot:
  an item of 2 x 2 x 2 offered to a bin of 1 x 1 x 1 at pivot (1, 0, 0) is refused, and
  its position has moved from (0, 0, 0) to (1, 0, 0).
\<close>

theorem PutItem_Position_counterexample:
  "fst (PutItem too_big_packer 0 0 (1, 0, 0)) = False \<and>
   iPosition (imem (snd (PutItem too_big_packer 0 0 (1, 0, 0))) 0) \<noteq>
     iPosition (imem too_big_packer 0)"
  by (simp add: too_big_packer_def model_defs)

text \<open>
  C6, amended: when \<open>PutItem\<close> returns false, every bin (its occupant list included), the
  packer's lists and every other item are unchanged; of the item itself only
  \<open>RotationType\<close> and \<open>Position\<close> may differ, and \<open>Position\<close> is the pivot of the call.
\<close>

theorem PutItem_False_frame:
  assumes "PutItem s b item p = (False, s')"
  shows "bmem s' = bmem s \<and> Bins s' = Bins s \<and> Items s' = Items s \<and>
         UnfitItems s' = UnfitItems s \<and> FewestBoxes s' = FewestBoxes s \<and>
         (\<forall>j. j \<noteq> item \<longrightarrow> imem s' j = imem s j) \<and>
         imem s' item =
           (imem s item)\<lparr>iPosition := p, iRotationType := iRotationType (imem s' item)\<rparr>"
proof -
  from PutItem_cases [OF assms] obtain r where "s' = placed s item r p"
    by auto
  then show ?thesis
    by (simp add: placed_def)
qed

theorem PutItem_False_frame_witness:
  "PutItem too_big_packer 0 0 (1, 0, 0) =
     (False, placed too_big_packer 0 RotationType_WDH (1, 0, 0)) \<and>
   bItems (bmem (placed too_big_packer 0 RotationType_WDH (1, 0, 0)) 0) =
     bItems (bmem too_big_packer 0) \<and>
   iPosition (imem (placed too_big_packer 0 RotationType_WDH (1, 0, 0)) 0) = (1, 0, 0)"
proof -
  have h: "PutItem too_big_packer 0 0 (1, 0, 0) =
             (False, placed too_big_packer 0 RotationType_WDH (1, 0, 0))"
    by (simp add: too_big_packer_def model_defs placed_def)
  show ?thesis
    using h PutItem_False_frame [OF h] by (simp add: placed_def)
qed

subsection \<open>C7: the rotation that PutItem selects\<close>

text \<open>
  C7: \<open>PutItem\<close> tries the rotations in the order WHD, HWD, HDW, DHW, DWH, WDH, each
  with its effective dimension, and takes the first under which the item, at the pivot,
  is contained in the bin. If there is none it returns false. Otherwise that rotation
  alone decides: if the item then intersects an occupant the call returns false (pivot
  and that rotation stay recorded, no later rotation is tried); if not, the call
  returns true, the item's \<open>Position\<close> is the pivot, its \<open>RotationType\<close> is that rotation,
  and the bin's occupant list is the old list with the item appended. After a call that
  returns false the occupant list is the old one.
\<close>

theorem PutItem_first_contained_rotation:
  "PutItem s b item p =
     (case first_contained s b item p of
        None \<Rightarrow> (False, placed s item RotationType_WDH p)
      | Some r \<Rightarrow>
          (if list_ex (\<lambda>ib. Intersect (imem (placed s item r p) ib) (imem (placed s item r p) item))
                (bItems (bmem s b))
           then (False, placed s item r p)
           else (True, (placed s item r p)
                   \<lparr>bmem := (bmem s)(b := (bmem s b)\<lparr>bItems := bItems (bmem s b) @ [item]\<rparr>)\<rparr>))) \<and>
   (fst (PutItem s b item p) \<longrightarrow>
      bItems (bmem (snd (PutItem s b item p)) b) = bItems (bmem s b) @ [item] \<and>
      iPosition (imem (snd (PutItem s b item p)) item) = p \<and>
      first_contained s b item p = Some (iRotationType (imem (snd (PutItem s b item p)) item))) \<and>
   (\<not> fst (PutItem s b item p) \<longrightarrow>
      bItems (bmem (snd (PutItem s b item p)) b) = bItems (bmem s b)) \<and>
   map (\<lambda>r. GetDimension (it\<lparr>iRotationType := r\<rparr>)) rotation_order =
     [(iWidth it, iHeight it, iDepth it), (iHeight it, iWidth it, iDepth it),
      (iHeight it, iDepth it, iWidth it), (iDepth it, iHeight it, iWidth it),
      (iDepth it, iWidth it, iHeight it), (iWidth it, iDepth it, iHeight it)]"
proof -
  have e: "PutItem s b item p =
     (case first_contained s b item p of
        None \<Rightarrow> (False, placed s item RotationType_WDH p)
      | Some r \<Rightarrow>
          (if list_ex (\<lambda>ib. Intersect (imem (placed s item r p) ib) (imem (placed s item r p) item))
                (bItems (bmem s b))
           then (False, placed s item r p)
           else (True, (placed s item r p)
                   \<lparr>bmem := (bmem s)(b := (bmem s b)\<lparr>bItems := bItems (bmem s b) @ [item]\<rparr>)\<rparr>)))"
    by (simp add: PutItem_eq append_item_def placed_def split: option.splits)
  have outcome: "(fst (PutItem s b item p) \<longrightarrow>
      bItems (bmem (snd (PutItem s b item p)) b) = bItems (bmem s b) @ [item] \<and>
      iPosition (imem (snd (PutItem s b item p)) item) = p \<and>
      first_contained s b item p = Some (iRotationType (imem (snd (PutItem s b item p)) item))) \<and>
   (\<not> fst (PutItem s b item p) \<longrightarrow>
      bItems (bmem (snd (PutItem s b item p)) b) = bItems (bmem s b))"
    apply (subst e)+
    apply (auto simp: placed_def split: option.splits)
    done
  have table: "map (\<lambda>r. GetDimension (it\<lparr>iRotationType := r\<rparr>)) rotation_order =
     [(iWidth it, iHeight it, iDepth it), (iHeight it, iWidth it, iDepth it),
      (iHeight it, iDepth it, iWidth it), (iDepth it, iHeight it, iWidth it),
      (iDepth it, iWidth it, iHeight it), (iWidth it, iDepth it, iHeight it)]"
    by (simp add: rotation_order_def GetDimension_def RotationType_defs)
  from e outcome table show ?thesis by blast
qed

theorem PutItem_first_contained_rotation_witness:
  "fst (PutItem upright_packer 0 0 startPosition) \<and>
   first_contained upright_packer 0 0 startPosition = Some RotationType_HWD \<and>
   bItems (bmem upright_packer 0) = [] \<and>
   bItems (bmem (snd (PutItem upright_packer 0 0 startPosition)) 0) = [0] \<and>
   iPosition (imem (snd (PutItem upright_packer 0 0 startPosition)) 0) = startPosition \<and>
   iRotationType (imem (snd (PutItem upright_packer 0 0 startPosition)) 0) = RotationType_HWD \<and>
   \<not> fst (PutItem too_big_packer 0 0 startPosition) \<and>
   bItems (bmem (snd (PutItem too_big_packer 0 0 startPosition)) 0) = bItems (bmem too_big_packer 0)"
proof -
  note t1 = PutItem_first_contained_rotation [of upright_packer 0 0 startPosition]
  note t2 = PutItem_first_contained_rotation [of too_big_packer 0 0 startPosition]
  have h1: "fst (PutItem upright_packer 0 0 startPosition)"
    by code_simp
  have h2: "\<not> fst (PutItem too_big_packer 0 0 startPosition)"
    by code_simp
  have f: "first_contained upright_packer 0 0 startPosition = Some RotationType_HWD"
    by code_simp
  have o: "bItems (bmem upright_packer 0) = []"
    by code_simp
  from t1 h1 have s: "bItems (bmem (snd (PutItem upright_packer 0 0 startPosition)) 0) =
        bItems (bmem upright_packer 0) @ [0] \<and>
      iPosition (imem (snd (PutItem upright_packer 0 0 startPosition)) 0) = startPosition \<and>
      first_contained upright_packer 0 0 startPosition =
        Some (iRotationType (imem (snd (PutItem upright_packer 0 0 startPosition)) 0))"
    by blast
  from t2 h2 have u: "bItems (bmem (snd (PutItem too_big_packer 0 0 startPosition)) 0) =
      bItems (bmem too_big_packer 0)"
    by blast
  from s f o have "bItems (bmem (snd (PutItem upright_packer 0 0 startPosition)) 0) = [0]"
    "iRotationType (imem (snd (PutItem upright_packer 0 0 startPosition)) 0) = RotationType_HWD"
    "iPosition (imem (snd (PutItem upright_packer 0 0 startPosition)) 0) = startPosition"
    by simp_all
  with h1 h2 f o u show ?thesis by blast
qed

subsection \<open>C8: Intersect\<close>

text \<open>
  C8: two placed items intersect if and only if the projections on (width, height),
  (height, depth) and (width, depth) all overlap, where a projection overlaps iff on both
  of its axes half the sum of the effective extents minus the distance of the centers
  exceeds 0.01, a center being the pivot plus half the effective extent.
\<close>

theorem Intersect_iff_projections:
  "Intersect i1 i2 =
     (projection_overlap i1 i2 WidthAxis HeightAxis \<and>
      projection_overlap i1 i2 HeightAxis DepthAxis \<and>
      projection_overlap i1 i2 WidthAxis DepthAxis)"
  by (simp add: Intersect_def rectIntersect_iff)

theorem Intersect_iff_projections_witness:
  "Intersect (imem row_packer 0) (imem row_packer 0) \<and>
   projection_overlap (imem row_packer 0) (imem row_packer 1) HeightAxis DepthAxis \<and>
   \<not> projection_overlap (imem row_packer 0) (imem row_packer 1) WidthAxis HeightAxis \<and>
   \<not> Intersect (imem row_packer 0) (imem row_packer 1)"
proof -
  have "projection_overlap (imem row_packer 0) (imem row_packer 0) WidthAxis HeightAxis"
    "projection_overlap (imem row_packer 0) (imem row_packer 0) HeightAxis DepthAxis"
    "projection_overlap (imem row_packer 0) (imem row_packer 0) WidthAxis DepthAxis"
    "projection_overlap (imem row_packer 0) (imem row_packer 1) HeightAxis DepthAxis"
    "\<not> projection_overlap (imem row_packer 0) (imem row_packer 1) WidthAxis HeightAxis"
    by code_simp+
  then show ?thesis
    using Intersect_iff_projections [of "imem row_packer 0" "imem row_packer 0"]
      Intersect_iff_projections [of "imem row_packer 0" "imem row_packer 1"]
    by simp
qed

subsection \<open>C9: the first FewestBoxes pass\<close>

text \<open>
  C9, as stated: the first phase goes on until no bin has a volume at least the current
  total volume of the remaining items, or no items remain. The code makes one pass over
  the bins and stops. \<open>long_bin_packer\<close> has the flag set and is already in the order
  \<open>Pack\<close> sorts it into; the pass ends with the item still pending and the bin's
  volume, 8, no less than the volume that remains, 8.
\<close>

theorem fewest_pass_counterexample:
  "FewestBoxes long_bin_packer \<and>
   sort_Sort (BinSlice_Less long_bin_packer) (Bins long_bin_packer) = Bins long_bin_packer \<and>
   sort_Sort (ItemSlice_Less long_bin_packer) (Items long_bin_packer) = Items long_bin_packer \<and>
   (case fewest_pass 1 (items_volume long_bin_packer (Items long_bin_packer))
           (Bins long_bin_packer) long_bin_packer of
      Return s \<Rightarrow>
        length (Items s) > 0 \<and> Bins s = [0] \<and>
        Bin_GetVolume (bmem s 0) \<ge> items_volume s (Items s)
    | _ \<Rightarrow> False)"
  by code_simp

text \<open>
  C9, amended. Let \<open>s\<close> be the packer after the two sorts that open \<open>Pack\<close>. Its bins are
  the registered bins in ascending order of volume. Past the four checks, with the
  \<open>FewestBoxes\<close> flag set, \<open>Pack\<close> first makes one pass over these bins: it calls
  \<open>packToBin\<close>, with the items then remaining, on exactly the bins whose volume is at
  least the total item volume of \<open>s\<close>, computed before the pass, for as long as items
  remain; then come the second \<open>FewestBoxes\<close> loop and the greedy loop. Without the flag
  the pass is skipped. When no item has a negative volume, the bins of the pass are the
  bins whose volume is at least the current total volume of the items remaining when
  the bin is reached. The pass is not repeated.
\<close>

theorem Pack_FewestBoxes_first_phase:
  assumes s: "s = s0\<lparr>Bins := sort_Sort (BinSlice_Less s0) (Bins s0),
                     Items := sort_Sort (ItemSlice_Less s0) (Items s0)\<rparr>"
  shows
    "sorted (map (\<lambda>bin. Bin_GetVolume (bmem s bin)) (Bins s)) \<and>
     mset (Bins s) = mset (Bins s0) \<and>
     Pack n s0 =
       (if Bins s = [] then Return (Some ErrNoBins, s)
        else if Items s = [] then Return (Some ErrNoItems, s)
        else if Bin_GetVolume (bmem s (last (Bins s))) < Item_GetVolume (imem s (hd (Items s)))
        then Return (Some ErrInvalidBinsVolume, s)
        else if bins_volume s (Bins s) < items_volume s (Items s)
        then Return (Some ErrInvalidBinsVolume, s)
        else
          (case (if FewestBoxes s
                 then (case attempt_each n
                              (filter (\<lambda>bin. items_volume s (Items s) \<le> Bin_GetVolume (bmem s bin))
                                 (Bins s)) s of
                         OutOfFuel \<Rightarrow> OutOfFuel
                       | Panic \<Rightarrow> Panic
                       | Return s1 \<Rightarrow> fewest_loop n s1)
                 else Return s) of
             OutOfFuel \<Rightarrow> OutOfFuel
           | Panic \<Rightarrow> Panic
           | Return s2 \<Rightarrow>
               (case greedy_loop n s2 of
                  OutOfFuel \<Rightarrow> OutOfFuel
                | Panic \<Rightarrow> Panic
                | Return s3 \<Rightarrow>
                    Return (if length (UnfitItems s3) > 0 then Some ErrUnfitItemsExist else None, s3)))) \<and>
     (list_all (\<lambda>i. 0 \<le> Item_GetVolume (imem s i)) (Items s) \<longrightarrow>
        attempt_each n
          (filter (\<lambda>bin. items_volume s (Items s) \<le> Bin_GetVolume (bmem s bin)) (Bins s)) s =
        pass_on_current_volume n (Bins s) s)"
proof -
  have less: "BinSlice_Less s0 = (\<lambda>a b. Bin_GetVolume (bmem s0 a) < Bin_GetVolume (bmem s0 b))"
    by (simp add: BinSlice_Less_def fun_eq_iff)
  have bm: "bmem s = bmem s0" and bins: "Bins s = sort_Sort (BinSlice_Less s0) (Bins s0)"
    by (simp_all add: s)
  have ascending: "sorted (map (\<lambda>bin. Bin_GetVolume (bmem s bin)) (Bins s))"
    unfolding bm bins less by (rule sorted_sort_Sort)
  have perm: "mset (Bins s) = mset (Bins s0)"
    by (simp add: bins mset_sort_Sort)
  have il: "ItemSlice_Less (s0\<lparr>Bins := bs\<rparr>) = ItemSlice_Less s0" for bs
    by (simp add: ItemSlice_Less_def fun_eq_iff)
  have pack: "Pack n s0 =
       (if Bins s = [] then Return (Some ErrNoBins, s)
        else if Items s = [] then Return (Some ErrNoItems, s)
        else if Bin_GetVolume (bmem s (last (Bins s))) < Item_GetVolume (imem s (hd (Items s)))
        then Return (Some ErrInvalidBinsVolume, s)
        else if bins_volume s (Bins s) < items_volume s (Items s)
        then Return (Some ErrInvalidBinsVolume, s)
        else
          (case (if FewestBoxes s
                 then (case attempt_each n
                              (filter (\<lambda>bin. items_volume s (Items s) \<le> Bin_GetVolume (bmem s bin))
                                 (Bins s)) s of
                         OutOfFuel \<Rightarrow> OutOfFuel
                       | Panic \<Rightarrow> Panic
                       | Return s1 \<Rightarrow> fewest_loop n s1)
                 else Return s) of
             OutOfFuel \<Rightarrow> OutOfFuel
           | Panic \<Rightarrow> Panic
           | Return s2 \<Rightarrow>
               (case greedy_loop n s2 of
                  OutOfFuel \<Rightarrow> OutOfFuel
                | Panic \<Rightarrow> Panic
                | Return s3 \<Rightarrow>
                    Return (if length (UnfitItems s3) > 0 then Some ErrUnfitItemsExist else None, s3))))"
    unfolding Pack_def fewest_boxes_def fewest_pass_filter
    by (simp add: Let_def il s del: attempt_each.simps)
  have current: "attempt_each n
          (filter (\<lambda>bin. items_volume s (Items s) \<le> Bin_GetVolume (bmem s bin)) (Bins s)) s =
        pass_on_current_volume n (Bins s) s"
    if nn: "list_all (\<lambda>i. 0 \<le> Item_GetVolume (imem s i)) (Items s)"
  proof -
    have "fewest_pass n (items_volume s (Items s)) (Bins s) s = pass_on_current_volume n (Bins s) s"
      using ascending nn by (intro fewest_pass_current) simp_all
    then show ?thesis by (simp only: fewest_pass_filter)
  qed
  from ascending perm pack current show ?thesis by blast
qed

theorem Pack_FewestBoxes_first_phase_witness:
  "two_bin_packer =
     two_bin_packer\<lparr>Bins := sort_Sort (BinSlice_Less two_bin_packer) (Bins two_bin_packer),
                     Items := sort_Sort (ItemSlice_Less two_bin_packer) (Items two_bin_packer)\<rparr> \<and>
   FewestBoxes two_bin_packer \<and>
   Bins two_bin_packer = [0, 1] \<and>
   sorted (map (\<lambda>bin. Bin_GetVolume (bmem two_bin_packer bin)) (Bins two_bin_packer)) \<and>
   list_all (\<lambda>i. 0 \<le> Item_GetVolume (imem two_bin_packer i)) (Items two_bin_packer) \<and>
   filter (\<lambda>bin. items_volume two_bin_packer (Items two_bin_packer)
                    \<le> Bin_GetVolume (bmem two_bin_packer bin)) (Bins two_bin_packer) = [1] \<and>
   attempt_each 3 [1] two_bin_packer =
     pass_on_current_volume 3 (Bins two_bin_packer) two_bin_packer \<and>
   (case attempt_each 3 [1] two_bin_packer of
      Return s \<Rightarrow> Items s = [] \<and> bItems (bmem s 0) = [] \<and> bItems (bmem s 1) = [0, 1]
    | _ \<Rightarrow> False) \<and>
   Pack 3 two_bin_packer =
     (case (case attempt_each 3 [1] two_bin_packer of
              OutOfFuel \<Rightarrow> OutOfFuel
            | Panic \<Rightarrow> Panic
            | Return s1 \<Rightarrow> fewest_loop 3 s1) of
        OutOfFuel \<Rightarrow> OutOfFuel
      | Panic \<Rightarrow> Panic
      | Return s2 \<Rightarrow>
          (case greedy_loop 3 s2 of
             OutOfFuel \<Rightarrow> OutOfFuel
           | Panic \<Rightarrow> Panic
           | Return s3 \<Rightarrow>
               Return (if length (UnfitItems s3) > 0 then Some ErrUnfitItemsExist else None, s3)))"
proof -
  have b: "Bins two_bin_packer = [0, 1]" and i: "Items two_bin_packer = [0, 1]"
    by code_simp+
  have sb: "sort_Sort (BinSlice_Less two_bin_packer) [0, 1] = [0, 1]"
    and si: "sort_Sort (ItemSlice_Less two_bin_packer) [0, 1] = [0, 1]"
    by code_simp+
  have same: "two_bin_packer\<lparr>Bins := [0, 1], Items := [0, 1]\<rparr> = two_bin_packer"
    by (simp add: two_bin_packer_def model_defs)
  have h: "two_bin_packer =
     two_bin_packer\<lparr>Bins := sort_Sort (BinSlice_Less two_bin_packer) (Bins two_bin_packer),
                     Items := sort_Sort (ItemSlice_Less two_bin_packer) (Items two_bin_packer)\<rparr>"
    by (simp only: b i sb si same)
  note t = Pack_FewestBoxes_first_phase [OF h, of 3]
  have fb: "FewestBoxes two_bin_packer"
    by code_simp
  have nn: "list_all (\<lambda>i. 0 \<le> Item_GetVolume (imem two_bin_packer i)) (Items two_bin_packer)"
    by code_simp
  have f: "filter (\<lambda>bin. items_volume two_bin_packer (Items two_bin_packer)
                    \<le> Bin_GetVolume (bmem two_bin_packer bin)) (Bins two_bin_packer) = [1]"
    by code_simp
  have g: "Bins two_bin_packer \<noteq> []" "Items two_bin_packer \<noteq> []"
    "\<not> Bin_GetVolume (bmem two_bin_packer (last (Bins two_bin_packer)))
         < Item_GetVolume (imem two_bin_packer (hd (Items two_bin_packer)))"
    "\<not> bins_volume two_bin_packer (Bins two_bin_packer)
         < items_volume two_bin_packer (Items two_bin_packer)"
    by code_simp+
  have r: "(case attempt_each 3 [1] two_bin_packer of
      Return s \<Rightarrow> Items s = [] \<and> bItems (bmem s 0) = [] \<and> bItems (bmem s 1) = [0, 1]
    | _ \<Rightarrow> False)"
    by code_simp
  from t have srt: "sorted (map (\<lambda>bin. Bin_GetVolume (bmem two_bin_packer bin)) (Bins two_bin_packer))"
    by (rule conjunct1)
  from t nn have "attempt_each 3
      (filter (\<lambda>bin. items_volume two_bin_packer (Items two_bin_packer)
                       \<le> Bin_GetVolume (bmem two_bin_packer bin)) (Bins two_bin_packer))
      two_bin_packer = pass_on_current_volume 3 (Bins two_bin_packer) two_bin_packer"
    by blast
  then have cur: "attempt_each 3 [1] two_bin_packer =
      pass_on_current_volume 3 (Bins two_bin_packer) two_bin_packer"
    by (simp only: f)
  from t [THEN conjunct2, THEN conjunct2, THEN conjunct1]
  have pk: "Pack 3 two_bin_packer =
     (case (case attempt_each 3 [1] two_bin_packer of
              OutOfFuel \<Rightarrow> OutOfFuel
            | Panic \<Rightarrow> Panic
            | Return s1 \<Rightarrow> fewest_loop 3 s1) of
        OutOfFuel \<Rightarrow> OutOfFuel
      | Panic \<Rightarrow> Panic
      | Return s2 \<Rightarrow>
          (case greedy_loop 3 s2 of
             OutOfFuel \<Rightarrow> OutOfFuel
           | Panic \<Rightarrow> Panic
           | Return s3 \<Rightarrow>
               Return (if length (UnfitItems s3) > 0 then Some ErrUnfitItemsExist else None, s3)))"
    by (simp only: g fb f if_True if_False)
  from h fb b srt nn f cur r pk show ?thesis by blast
qed

subsection \<open>C10: GetVolumeUtilization\<close>

text \<open>
  C10: \<open>GetVolumeUtilization\<close> has no guard against a zero volume. For a bin of positive
  volume it is the used volume times 100 over the volume; \<open>NewBin\<close> accepts a zero width,
  height or depth, and for such a bin, freshly constructed, the division is 0 / 0 and
  the result is NaN, no real number.
\<close>

theorem GetVolumeUtilization_unguarded:
  "(0 < Bin_GetVolume (bmem s b) \<longrightarrow>
      GetVolumeUtilization s b = Finite (GetUsedVolume s b * 100 / Bin_GetVolume (bmem s b))) \<and>
   ((w = 0 \<or> h = 0 \<or> d = 0) \<and> bmem s b = NewBin name w h d mw \<longrightarrow>
      GetVolumeUtilization s b = NaN)"
  by (auto simp: GetVolumeUtilization_def float_div_def Bin_GetVolume_def GetUsedVolume_def
      NewBin_def)

theorem GetVolumeUtilization_unguarded_witness:
  "0 < Bin_GetVolume (bmem one_eighth_packer 0) \<and>
   GetVolumeUtilization one_eighth_packer 0 = Finite (25 / 2) \<and>
   bmem flat_bin_packer 0 = NewBin ''flat'' 0 2 2 10 \<and>
   GetVolumeUtilization flat_bin_packer 0 = NaN"
proof -
  have h1: "0 < Bin_GetVolume (bmem one_eighth_packer 0)"
    by (simp add: one_eighth_packer_def model_defs)
  have h2: "bmem flat_bin_packer 0 = NewBin ''flat'' 0 2 2 10"
    by (simp add: flat_bin_packer_def model_defs)
  have u: "GetUsedVolume one_eighth_packer 0 * 100 / Bin_GetVolume (bmem one_eighth_packer 0) = 25 / 2"
    by (simp add: one_eighth_packer_def model_defs)
  show ?thesis
    using h1 h2 u GetVolumeUtilization_unguarded [of one_eighth_packer 0 0 2 2 "''flat''" 10]
      GetVolumeUtilization_unguarded [of flat_bin_packer 0 0 2 2 "''flat''" 10]
    by simp
qed

end
